theory Spec2Isabelle
  imports Main "HOL-Library.Multiset" "HOL-Library.Sublist"
begin

section \<open>The schedule executor of mdm\_dash (api/schedules/execute.js)\<close>

text \<open>
  The endpoint selects the schedules that are due, pushes each schedule's profile to its
  target devices, and writes the schedule back: marked as executed, or moved to its next
  start time when it recurs. The development embeds the handler and its helpers as HOL
  functions.

  Modelling decisions. Timestamps are ECMAScript time values (milliseconds since the
  epoch) taken as unbounded integers: the limit of 8.64e15 ms on time values is not
  modelled. The local time zone of the runtime is a fixed offset from UTC (no daylight
  saving). The replies of the database and of SimpleMDM are parameters of a run. An
  update that reports an error leaves the table as it was. The schedules of one run,
  which the source starts together with \<open>Promise.all\<close>, are taken one after the
  other in the order of the selection, and so are the pushes of one schedule.
\<close>

subsection \<open>ECMAScript dates\<close>

text \<open>
  The helper \<open>calculateNextExecutionTime\<close> works on a JavaScript \<open>Date\<close> through
  \<open>getDate\<close>, \<open>setDate\<close>, \<open>getDay\<close>, \<open>getMonth\<close> and \<open>setMonth\<close>. These are
  the abstract operations of the language standard (ECMA-262, Date objects): day number
  and time within the day, year, month and date of a time value, \<open>MakeDay\<close> and
  \<open>MakeDate\<close>.
\<close>

definition msPerDay :: int where
  "msPerDay = 86400000"

definition Day :: "int \<Rightarrow> int" where
  "Day t = t div msPerDay"

definition TimeWithinDay :: "int \<Rightarrow> int" where
  "TimeWithinDay t = t mod msPerDay"

definition DaysInYear :: "int \<Rightarrow> int" where
  "DaysInYear y =
     (if y mod 4 \<noteq> 0 then 365
      else if y mod 100 \<noteq> 0 then 366
      else if y mod 400 \<noteq> 0 then 365
      else 366)"

definition DayFromYear :: "int \<Rightarrow> int" where
  "DayFromYear y =
     365 * (y - 1970) + (y - 1969) div 4 - (y - 1901) div 100 + (y - 1601) div 400"

lemma div_succ:
  fixes x n :: int
  assumes n: "0 < n"
  shows "(x + 1) div n = x div n + (if n dvd (x + 1) then 1 else 0)"
proof -
  define q where "q = x div n"
  define r where "r = x mod n"
  have x: "x = n * q + r" by (simp add: q_def r_def)
  have r: "0 \<le> r" "r < n" using n by (simp_all add: r_def)
  show ?thesis
  proof (cases "r + 1 = n")
    case True
    have eq: "x + 1 = n * (q + 1) + 0"
      using True x by (simp add: algebra_simps)
    have "(x + 1) div n = q + 1"
      by (rule int_div_pos_eq [OF eq]) (use n in simp_all)
    moreover have "n dvd (x + 1)"
      unfolding eq by simp
    ultimately show ?thesis by (simp add: q_def)
  next
    case False
    have eq: "x + 1 = n * q + (r + 1)"
      using x by simp
    have lt: "r + 1 < n" using False r by linarith
    have d: "(x + 1) div n = q"
      by (rule int_div_pos_eq [OF eq]) (use r lt in simp_all)
    have m: "(x + 1) mod n = r + 1"
      by (rule int_mod_pos_eq [OF eq]) (use r lt in simp_all)
    have "\<not> n dvd (x + 1)"
      using m r by (simp add: dvd_eq_mod_eq_0)
    with d show ?thesis by (simp add: q_def)
  qed
qed

lemma DayFromYear_step: "DayFromYear (y + 1) = DayFromYear y + DaysInYear y"
proof -
  have a: "(y - 1968) div 4 = (y - 1969) div 4 + (if 4 dvd y then 1 else 0)"
    using div_succ [of 4 "y - 1969"] dvd_diff_left_iff [of 4 1968 y] by simp
  have b: "(y - 1900) div 100 = (y - 1901) div 100 + (if 100 dvd y then 1 else 0)"
    using div_succ [of 100 "y - 1901"] dvd_diff_left_iff [of 100 1900 y] by simp
  have c: "(y - 1600) div 400 = (y - 1601) div 400 + (if 400 dvd y then 1 else 0)"
    using div_succ [of 400 "y - 1601"] dvd_diff_left_iff [of 400 1600 y] by simp
  have d1: "100 dvd y \<Longrightarrow> 4 dvd y"
    by (rule dvd_trans [of 4 100 y]) simp_all
  have d2: "400 dvd y \<Longrightarrow> 100 dvd y"
    by (rule dvd_trans [of 100 400 y]) simp_all
  have "DayFromYear (y + 1) =
      365 * (y - 1969) + (y - 1968) div 4 - (y - 1900) div 100 + (y - 1600) div 400"
    by (simp add: DayFromYear_def)
  then show ?thesis
    using d1 d2 by (auto simp add: a b c DayFromYear_def DaysInYear_def mod_eq_0_iff_dvd)
qed

lemma DayFromYear_less: "DayFromYear y < DayFromYear (y + 1)"
  by (simp add: DayFromYear_step DaysInYear_def)

text \<open>
  \<open>YearFromTime(t)\<close> is the largest year whose first day is not after \<open>t\<close>. The search
  starts from a year that is certainly not too late and walks forward.
\<close>

function year_search :: "int \<Rightarrow> int \<Rightarrow> int" where
  "year_search d y = (if DayFromYear (y + 1) \<le> d then year_search d (y + 1) else y)"
  by pat_completeness auto
termination
proof (relation "measure (\<lambda>(d, y). nat (d - DayFromYear y))")
  show "wf (measure (\<lambda>(d, y). nat (d - DayFromYear y)))" by simp
next
  fix d y :: int
  assume "DayFromYear (y + 1) \<le> d"
  moreover have "DayFromYear y < DayFromYear (y + 1)" by (rule DayFromYear_less)
  ultimately show "((d, y + 1), (d, y)) \<in> measure (\<lambda>(d, y). nat (d - DayFromYear y))"
    by simp
qed

declare year_search.simps [simp del]

definition YearFromDay :: "int \<Rightarrow> int" where
  "YearFromDay d = year_search d (1970 + (if 0 \<le> d then d div 366 else d div 365))"

definition InLeapYear :: "int \<Rightarrow> int" where
  "InLeapYear y = (if DaysInYear y = 366 then 1 else 0)"

definition DayWithinYear :: "int \<Rightarrow> int" where
  "DayWithinYear d = d - DayFromYear (YearFromDay d)"

text \<open>The day within the year on which month \<open>m\<close> (0 = January) starts.\<close>

definition month_start :: "int \<Rightarrow> int \<Rightarrow> int" where
  "month_start leap m =
     (if m = 0 then 0
      else if m = 1 then 31
      else if m = 2 then 59 + leap
      else if m = 3 then 90 + leap
      else if m = 4 then 120 + leap
      else if m = 5 then 151 + leap
      else if m = 6 then 181 + leap
      else if m = 7 then 212 + leap
      else if m = 8 then 243 + leap
      else if m = 9 then 273 + leap
      else if m = 10 then 304 + leap
      else 334 + leap)"

text \<open>The month in which day \<open>w\<close> of a year falls, and the length of month \<open>m\<close>.\<close>

definition month_of :: "int \<Rightarrow> int \<Rightarrow> int" where
  "month_of leap w =
     (if w < 31 then 0
      else if w < 59 + leap then 1
      else if w < 90 + leap then 2
      else if w < 120 + leap then 3
      else if w < 151 + leap then 4
      else if w < 181 + leap then 5
      else if w < 212 + leap then 6
      else if w < 243 + leap then 7
      else if w < 273 + leap then 8
      else if w < 304 + leap then 9
      else if w < 334 + leap then 10
      else 11)"

definition month_length :: "int \<Rightarrow> int \<Rightarrow> int" where
  "month_length leap m =
     (if m = 1 then 28 + leap
      else if m = 3 \<or> m = 5 \<or> m = 8 \<or> m = 10 then 30
      else 31)"

definition DaysInMonth :: "int \<Rightarrow> int \<Rightarrow> int" where
  "DaysInMonth y m = month_length (InLeapYear y) m"

definition MonthFromDay :: "int \<Rightarrow> int" where
  "MonthFromDay d = month_of (InLeapYear (YearFromDay d)) (DayWithinYear d)"

definition DateFromDay :: "int \<Rightarrow> int" where
  "DateFromDay d =
     DayWithinYear d - month_start (InLeapYear (YearFromDay d)) (MonthFromDay d) + 1"

definition YearFromTime :: "int \<Rightarrow> int" where
  "YearFromTime t = YearFromDay (Day t)"

definition MonthFromTime :: "int \<Rightarrow> int" where
  "MonthFromTime t = MonthFromDay (Day t)"

definition DateFromTime :: "int \<Rightarrow> int" where
  "DateFromTime t = DateFromDay (Day t)"

definition WeekDay :: "int \<Rightarrow> int" where
  "WeekDay t = (Day t + 4) mod 7"

definition MakeDay :: "int \<Rightarrow> int \<Rightarrow> int \<Rightarrow> int" where
  "MakeDay year month date =
     (let ym = year + month div 12; mn = month mod 12
      in DayFromYear ym + month_start (InLeapYear ym) mn + date - 1)"

definition MakeDate :: "int \<Rightarrow> int \<Rightarrow> int" where
  "MakeDate day time = day * msPerDay + time"

text \<open>Local time: the runtime's offset from UTC in milliseconds, taken as constant.\<close>

definition LocalTime :: "int \<Rightarrow> int \<Rightarrow> int" where
  "LocalTime tza t = t + tza"

definition UTC :: "int \<Rightarrow> int \<Rightarrow> int" where
  "UTC tza t = t - tza"

definition getDate :: "int \<Rightarrow> int \<Rightarrow> int" where
  "getDate tza t = DateFromTime (LocalTime tza t)"

definition getDay :: "int \<Rightarrow> int \<Rightarrow> int" where
  "getDay tza t = WeekDay (LocalTime tza t)"

definition getMonth :: "int \<Rightarrow> int \<Rightarrow> int" where
  "getMonth tza t = MonthFromTime (LocalTime tza t)"

definition getFullYear :: "int \<Rightarrow> int \<Rightarrow> int" where
  "getFullYear tza t = YearFromTime (LocalTime tza t)"

definition setDate :: "int \<Rightarrow> int \<Rightarrow> int \<Rightarrow> int" where
  "setDate tza t date =
     (let lt = LocalTime tza t
      in UTC tza (MakeDate (MakeDay (YearFromTime lt) (MonthFromTime lt) date)
                    (TimeWithinDay lt)))"

definition setMonth :: "int \<Rightarrow> int \<Rightarrow> int \<Rightarrow> int" where
  "setMonth tza t month =
     (let lt = LocalTime tza t
      in UTC tza (MakeDate (MakeDay (YearFromTime lt) month (DateFromTime lt))
                    (TimeWithinDay lt)))"

subsection \<open>The recurrence helper\<close>

text \<open>
  \<open>calculateNextExecutionTime(currentTime, pattern, recurrenceDays)\<close>. The result
  \<open>None\<close> is JavaScript's \<open>null\<close>. \<open>recurrenceDays\<close> is \<open>None\<close> when the column
  holds no array.
\<close>

definition calculateNextExecutionTime ::
  "int \<Rightarrow> int \<Rightarrow> string \<Rightarrow> int list option \<Rightarrow> int option" where
  "calculateNextExecutionTime tza currentTime pattern recurrenceDays =
     (if pattern = ''daily'' then
        Some (setDate tza currentTime (getDate tza currentTime + 1))
      else if pattern = ''weekly'' then
        (case recurrenceDays of
           None \<Rightarrow> Some (setDate tza currentTime (getDate tza currentTime + 7))
         | Some days \<Rightarrow>
             if length days > 0 then
               (let currentDay = getDay tza currentTime;
                    sortedDays = sort days
                in case find (\<lambda>day. day > currentDay) sortedDays of
                     None \<Rightarrow>
                       Some (setDate tza currentTime
                               (getDate tza currentTime + (7 - currentDay + hd sortedDays)))
                   | Some nextDay \<Rightarrow>
                       Some (setDate tza currentTime
                               (getDate tza currentTime + (nextDay - currentDay))))
             else Some (setDate tza currentTime (getDate tza currentTime + 7)))
      else if pattern = ''monthly'' then
        Some (setMonth tza currentTime (getMonth tza currentTime + 1))
      else None)"

subsection \<open>Rows, devices and the world outside\<close>

text \<open>
  A row of the \<open>schedules\<close> table, with the columns the handler reads. Times are in
  milliseconds since the epoch; \<open>None\<close> is SQL \<open>NULL\<close>.
\<close>

record schedule =
  schedule_id :: nat
  enabled :: bool
  schedule_type :: string
  start_time :: int
  recurrence_pattern :: "string option"
  recurrence_days :: "int list option"
  device_filter :: "string option"
  profile_id :: nat
  last_executed_at :: "int option"

text \<open>
  A device of the SimpleMDM directory: its id and \<open>attributes.name\<close>, which is
  \<open>None\<close> when the entry carries no name string.
\<close>

record device =
  device_id :: nat
  device_name :: "string option"

text \<open>
  The value \<open>JSON.parse\<close> yields for a device filter. An object is the list of its
  members, one entry per key. Of a number the handler only tests whether it is zero.
\<close>

datatype json =
  JNull
  | JBool bool
  | JNum int
  | JStr string
  | JArr "json list"
  | JObj "(string \<times> json) list"

datatype js_error = SyntaxError | TypeError | Error string

text \<open>Reply of \<open>GET /api/v1/devices\<close>: a failure (transport error, status not ok,
  body that is no JSON object), or the \<open>data\<close> member of the body.\<close>

datatype directory_reply = DirectoryFailure | DirectoryBody "device list option"

text \<open>Reply of \<open>POST /api/v1/profiles/P/devices/D\<close>.\<close>

datatype push_reply = PushOk | PushRejected nat string | PushTransportError string

datatype push_result = PushSuccess | PushFailure string

text \<open>
  What the handler reads from its surroundings in one run: the time zone, the environment
  variables, the error that \<open>createClient\<close> throws (if it throws, as on a URL that is
  none), the JSON parser and the lower-casing of strings, and the replies of the database
  and of SimpleMDM (one directory reply and one update result per schedule, one push reply
  per profile and device).
\<close>

record env =
  local_tza :: int
  SCHEDULE_EXECUTOR_API_KEY :: "string option"
  SUPABASE_URL :: "string option"
  SUPABASE_SERVICE_ROLE_KEY :: "string option"
  SIMPLEMDM_API_KEY :: "string option"
  VITE_SIMPLEMDM_API_KEY :: "string option"
  createClient_error :: "string option"
  json_parse :: "string \<Rightarrow> json option"
  toLowerCase :: "string \<Rightarrow> string"
  select_error :: "string option"
  devices_reply :: "schedule \<Rightarrow> directory_reply"
  push_reply :: "nat \<Rightarrow> nat \<Rightarrow> push_reply"
  update_error :: "schedule \<Rightarrow> string option"

text \<open>The state the handler changes: the table, and the push requests sent so far.\<close>

record world =
  store :: "schedule list"
  pushed :: "(nat \<times> nat) list"

record request =
  req_method :: string
  x_api_key :: "string option"
  x_vercel_cron :: "string option"

record update_data =
  ud_last_executed_at :: "int option"
  ud_start_time :: "int option"

record outcome =
  scheduleId :: nat
  profileId :: "nat option"
  devicesCount :: "nat option"
  success :: bool
  message :: "string option"
  nextExecution :: "int option"
  error :: "string option"

datatype body =
  ErrorBody string "string option"
  | MessageBody string
  | ReportBody nat nat "outcome list"

type_synonym response = "nat \<times> body"

subsection \<open>JavaScript values\<close>

definition truthy_string :: "string option \<Rightarrow> bool" where
  "truthy_string v = (case v of None \<Rightarrow> False | Some s \<Rightarrow> s \<noteq> [])"

fun truthy :: "json option \<Rightarrow> bool" where
  "truthy None = False"
| "truthy (Some JNull) = False"
| "truthy (Some (JBool b)) = b"
| "truthy (Some (JNum n)) = (n \<noteq> 0)"
| "truthy (Some (JStr s)) = (s \<noteq> [])"
| "truthy (Some (JArr xs)) = True"
| "truthy (Some (JObj kvs)) = True"

text \<open>
  Reading \<open>filter.groupIds\<close> or \<open>filter.nameContains\<close>: a \<open>TypeError\<close> on
  \<open>null\<close>, the member of an object, \<open>undefined\<close> (here \<open>None\<close>) on anything else.
\<close>

fun get_member :: "json \<Rightarrow> string \<Rightarrow> js_error + json option" where
  "get_member JNull k = Inl TypeError"
| "get_member (JObj kvs) k = Inr (map_of kvs k)"
| "get_member v k = Inr None"

text \<open>
  \<open>String.prototype.toLowerCase\<close> is a parameter of a run, as \<open>JSON.parse\<close> is. The
  sample data uses the lower case of the ASCII letters.
\<close>

definition lower_char :: "char \<Rightarrow> char" where
  "lower_char c =
     (let n = (of_char c :: nat) in if 65 \<le> n \<and> n \<le> 90 then char_of (n + 32) else c)"

definition ascii_toLowerCase :: "string \<Rightarrow> string" where
  "ascii_toLowerCase s = map lower_char s"

fun includes_str :: "string \<Rightarrow> string \<Rightarrow> bool" where
  "includes_str [] sub = (sub = [])"
| "includes_str (c # cs) sub = (prefix sub (c # cs) \<or> includes_str cs sub)"

definition digit_char :: "nat \<Rightarrow> char" where
  "digit_char n = char_of (48 + n)"

fun show_nat :: "nat \<Rightarrow> string" where
  "show_nat n = (if n < 10 then [digit_char n] else show_nat (n div 10) @ [digit_char (n mod 10)])"

declare show_nat.simps [simp del]

definition error_message :: "js_error \<Rightarrow> string" where
  "error_message e =
     (case e of SyntaxError \<Rightarrow> ''SyntaxError'' | TypeError \<Rightarrow> ''TypeError'' | Error m \<Rightarrow> m)"

subsection \<open>The SimpleMDM helpers\<close>

text \<open>
  \<open>fetchAllDevices\<close> catches every failure and then answers with the empty list. Its
  result is the \<open>data\<close> member it returns, \<open>None\<close> when the body had none.
\<close>

definition fetchAllDevices :: "directory_reply \<Rightarrow> device list option" where
  "fetchAllDevices reply =
     (case reply of DirectoryFailure \<Rightarrow> Some [] | DirectoryBody d \<Rightarrow> d)"

text \<open>
  The callback of \<open>filteredDevices.filter\<close>: lower-casing the device name fails when the
  device has no name string, lower-casing \<open>filter.nameContains\<close> fails when that member
  is no string.
\<close>

definition name_matches ::
  "(string \<Rightarrow> string) \<Rightarrow> json option \<Rightarrow> device \<Rightarrow> js_error + bool" where
  "name_matches lower nameContains dev =
     (case device_name dev of
        None \<Rightarrow> Inl TypeError
      | Some n \<Rightarrow>
          (case nameContains of
             Some (JStr s) \<Rightarrow> Inr (includes_str (lower n) (lower s))
           | _ \<Rightarrow> Inl TypeError))"

fun filter_devices ::
  "(string \<Rightarrow> string) \<Rightarrow> json option \<Rightarrow> device list \<Rightarrow> js_error + device list" where
  "filter_devices lower nameContains [] = Inr []"
| "filter_devices lower nameContains (dev # devs) =
     (case name_matches lower nameContains dev of
        Inl e \<Rightarrow> Inl e
      | Inr keep \<Rightarrow>
          (case filter_devices lower nameContains devs of
             Inl e \<Rightarrow> Inl e
           | Inr rest \<Rightarrow> Inr (if keep then dev # rest else rest)))"

text \<open>
  \<open>fetchFilteredDevices(filter, apiKey)\<close>. The branch for \<open>filter.groupIds\<close> has an
  empty body, so only the read of the member remains.
\<close>

definition fetchFilteredDevices ::
  "(string \<Rightarrow> string) \<Rightarrow> json \<Rightarrow> directory_reply \<Rightarrow> js_error + device list" where
  "fetchFilteredDevices lower filt reply =
     (case fetchAllDevices reply of
        None \<Rightarrow> Inr []
      | Some devices \<Rightarrow>
          (case get_member filt ''groupIds'' of
             Inl e \<Rightarrow> Inl e
           | Inr groupIds \<Rightarrow>
               (case get_member filt ''nameContains'' of
                  Inl e \<Rightarrow> Inl e
                | Inr nameContains \<Rightarrow>
                    if truthy nameContains then filter_devices lower nameContains devices
                    else Inr devices)))"

definition pushProfileToDevice :: "push_reply \<Rightarrow> push_result" where
  "pushProfileToDevice reply =
     (case reply of
        PushOk \<Rightarrow> PushSuccess
      | PushRejected status errorText \<Rightarrow>
          PushFailure (''SimpleMDM API error ('' @ show_nat status @ ''): '' @ errorText)
      | PushTransportError m \<Rightarrow> PushFailure m)"

subsection \<open>The handler\<close>

definition try_catch :: "js_error + 'a \<Rightarrow> (js_error \<Rightarrow> js_error + 'a) \<Rightarrow> js_error + 'a" where
  "try_catch block handle = (case block of Inl e \<Rightarrow> handle e | Inr v \<Rightarrow> Inr v)"

text \<open>
  The due window and the query for the schedules to execute. Rows with the same
  \<open>start_time\<close> come in the order of the table.
\<close>

definition pastWindow :: "int \<Rightarrow> int" where
  "pastWindow now = now - 15 * 60 * 1000"

definition schedulesToExecute :: "schedule list \<Rightarrow> int \<Rightarrow> schedule list" where
  "schedulesToExecute table now =
     sort_key start_time
       (filter (\<lambda>row. enabled row = True \<and> start_time row \<le> now
                  \<and> start_time row > pastWindow now \<and> last_executed_at row = None)
          table)"

text \<open>The fields to write back: \<open>updateData\<close>.\<close>

definition updateData :: "env \<Rightarrow> int \<Rightarrow> schedule \<Rightarrow> update_data" where
  "updateData e now schedule =
     (case recurrence_pattern schedule of
        Some pattern \<Rightarrow>
          if schedule_type schedule = ''recurring'' \<and> pattern \<noteq> [] then
            (case calculateNextExecutionTime (local_tza e) (start_time schedule) pattern
                    (recurrence_days schedule) of
               Some nextTime \<Rightarrow>
                 \<lparr>ud_last_executed_at = None, ud_start_time = Some nextTime\<rparr>
             | None \<Rightarrow> \<lparr>ud_last_executed_at = Some now, ud_start_time = None\<rparr>)
          else \<lparr>ud_last_executed_at = Some now, ud_start_time = None\<rparr>
      | None \<Rightarrow> \<lparr>ud_last_executed_at = Some now, ud_start_time = None\<rparr>)"

text \<open>The devices a schedule targets; a failure inside the \<open>try\<close> leaves none.\<close>

definition targetDevices :: "env \<Rightarrow> schedule \<Rightarrow> js_error + device list" where
  "targetDevices e schedule =
     (if truthy_string (device_filter schedule) then
        try_catch
          (case device_filter schedule of
             None \<Rightarrow> Inl TypeError
           | Some text \<Rightarrow>
               (case json_parse e text of
                  None \<Rightarrow> Inl SyntaxError
                | Some filt \<Rightarrow>
                    fetchFilteredDevices (toLowerCase e) filt (devices_reply e schedule)))
          (\<lambda>filterError. Inr [])
      else
        (case fetchAllDevices (devices_reply e schedule) of
           None \<Rightarrow> Inr []
         | Some devices \<Rightarrow> Inr devices))"

text \<open>\<open>supabase.from('schedules').update(updateData).eq('id', id)\<close>.\<close>

definition apply_update :: "update_data \<Rightarrow> schedule \<Rightarrow> schedule" where
  "apply_update u row =
     row\<lparr>last_executed_at := ud_last_executed_at u,
         start_time := (case ud_start_time u of None \<Rightarrow> start_time row | Some t \<Rightarrow> t)\<rparr>"

definition update_schedules :: "update_data \<Rightarrow> nat \<Rightarrow> schedule list \<Rightarrow> schedule list" where
  "update_schedules u i table =
     map (\<lambda>row. if schedule_id row = i then apply_update u row else row) table"

definition failed_outcome :: "schedule \<Rightarrow> string \<Rightarrow> outcome" where
  "failed_outcome schedule m =
     \<lparr>scheduleId = schedule_id schedule, profileId = None, devicesCount = None,
      success = False, message = None, nextExecution = None, error = Some m\<rparr>"

text \<open>
  The body of the \<open>map\<close> over the selected schedules: one schedule, from \<open>updateData\<close>
  to its outcome. A failed update changes nothing in the table.
\<close>

definition execute_schedule :: "env \<Rightarrow> int \<Rightarrow> schedule \<Rightarrow> world \<Rightarrow> outcome \<times> world" where
  "execute_schedule e now schedule w =
     (let u = updateData e now schedule in
      case targetDevices e schedule of
        Inl scheduleError \<Rightarrow> (failed_outcome schedule (error_message scheduleError), w)
      | Inr devices \<Rightarrow>
          (let profileApplicationResults =
                 map (\<lambda>dev. pushProfileToDevice
                               (push_reply e (profile_id schedule) (device_id dev)))
                   devices;
               w1 = w\<lparr>pushed :=
                        pushed w @ map (\<lambda>dev. (profile_id schedule, device_id dev)) devices\<rparr>
           in case update_error e schedule of
                Some m \<Rightarrow> (failed_outcome schedule (''Failed to update schedule: '' @ m), w1)
              | None \<Rightarrow>
                  (\<lparr>scheduleId = schedule_id schedule,
                    profileId = Some (profile_id schedule),
                    devicesCount = Some (length devices),
                    success = True,
                    message = Some (''Profile '' @ show_nat (profile_id schedule)
                                @ '' pushed to '' @ show_nat (length devices) @ '' devices''),
                    nextExecution = ud_start_time u,
                    error = None\<rparr>,
                   w1\<lparr>store := update_schedules u (schedule_id schedule) (store w1)\<rparr>)))"

text \<open>
  \<open>Promise.all\<close> over the selected schedules. The outcomes come in the order of the
  selection; the schedules are taken one after the other.
\<close>

fun execute_all :: "env \<Rightarrow> int \<Rightarrow> schedule list \<Rightarrow> world \<Rightarrow> outcome list \<times> world" where
  "execute_all e now [] w = ([], w)"
| "execute_all e now (schedule # rest) w =
     (case execute_schedule e now schedule w of
        (r, w1) \<Rightarrow> (case execute_all e now rest w1 of (rs, w2) \<Rightarrow> (r # rs, w2)))"

definition isVercelCron :: "request \<Rightarrow> bool" where
  "isVercelCron req = (x_vercel_cron req = Some ''true'')"

definition simpleMdmApiKey :: "env \<Rightarrow> string option" where
  "simpleMdmApiKey e =
     (if truthy_string (SIMPLEMDM_API_KEY e) then SIMPLEMDM_API_KEY e
      else VITE_SIMPLEMDM_API_KEY e)"

text \<open>
  The handler. Its outer \<open>catch\<close> answers 500 when \<open>createClient\<close> throws; nothing
  else outside the schedules' own \<open>try\<close> blocks throws.
\<close>

definition handler :: "env \<Rightarrow> request \<Rightarrow> int \<Rightarrow> world \<Rightarrow> response \<times> world" where
  "handler e req now w =
     (if req_method req \<noteq> ''POST'' \<and> req_method req \<noteq> ''GET'' then
        ((405, ErrorBody ''Method not allowed'' None), w)
      else if truthy_string (SCHEDULE_EXECUTOR_API_KEY e)
              \<and> x_api_key req \<noteq> SCHEDULE_EXECUTOR_API_KEY e \<and> \<not> isVercelCron req then
        ((401, ErrorBody ''Unauthorized'' None), w)
      else if \<not> truthy_string (SUPABASE_URL e) \<or> \<not> truthy_string (SUPABASE_SERVICE_ROLE_KEY e) then
        ((500, ErrorBody ''Database configuration missing'' None), w)
      else if createClient_error e \<noteq> None then
        ((500, ErrorBody ''Schedule execution failed'' (createClient_error e)), w)
      else if \<not> truthy_string (simpleMdmApiKey e) then
        ((500, ErrorBody ''SimpleMDM API key not configured'' None), w)
      else
        (case select_error e of
           Some m \<Rightarrow> ((500, ErrorBody ''Failed to fetch schedules'' (Some m)), w)
         | None \<Rightarrow>
             (let selected = schedulesToExecute (store w) now in
              if length selected = 0 then ((200, MessageBody ''No schedules to execute''), w)
              else
                (case execute_all e now selected w of
                   (results, w1) \<Rightarrow>
                     ((200, ReportBody (length (filter (\<lambda>r. success r) results))
                              (length (filter (\<lambda>r. \<not> success r) results)) results),
                      w1)))))"

text \<open>A sequence of runs of the handler, each with its own surroundings, request and time.\<close>

fun handler_runs :: "(env \<times> request \<times> int) list \<Rightarrow> world \<Rightarrow> world" where
  "handler_runs [] w = w"
| "handler_runs ((e, req, now) # rest) w = handler_runs rest (snd (handler e req now w))"

text \<open>A row is due at \<open>now\<close> when the four conditions of the query hold for it.\<close>

definition due :: "int \<Rightarrow> schedule \<Rightarrow> bool" where
  "due now row \<longleftrightarrow>
     enabled row \<and> last_executed_at row = None
       \<and> now - 15 * 60 * 1000 < start_time row \<and> start_time row \<le> now"

subsection \<open>Sample data\<close>

text \<open>
  A run at 2024-01-01T09:10:00Z. The first schedule runs once and started at 09:00, the
  second recurs daily, started at 09:05 and carries a device filter that is no JSON, the
  third started at 08:55:00, exactly fifteen minutes before the run.
\<close>

definition ex_now :: int where
  "ex_now = 1704100200000"

definition job_once :: schedule where
  "job_once =
     \<lparr>schedule_id = 1, enabled = True, schedule_type = ''once'',
      start_time = 1704099600000, recurrence_pattern = None, recurrence_days = None,
      device_filter = None, profile_id = 7, last_executed_at = None\<rparr>"

definition job_daily :: schedule where
  "job_daily =
     \<lparr>schedule_id = 2, enabled = True, schedule_type = ''recurring'',
      start_time = 1704099900000, recurrence_pattern = Some ''daily'', recurrence_days = None,
      device_filter = Some ''{oops'', profile_id = 8, last_executed_at = None\<rparr>"

definition job_boundary :: schedule where
  "job_boundary =
     \<lparr>schedule_id = 3, enabled = True, schedule_type = ''once'',
      start_time = 1704099300000, recurrence_pattern = None, recurrence_days = None,
      device_filter = None, profile_id = 9, last_executed_at = None\<rparr>"

definition ex_devices :: "device list" where
  "ex_devices =
     [\<lparr>device_id = 1, device_name = Some ''Lobby iPad''\<rparr>,
      \<lparr>device_id = 2, device_name = Some ''Kiosk''\<rparr>]"

definition ex_parse :: "string \<Rightarrow> json option" where
  "ex_parse text =
     (if text = ''{}'' then Some (JObj [])
      else if text = ''null'' then Some JNull
      else None)"

text \<open>All services answer; SimpleMDM rejects every push to device 2.\<close>

definition ex_env :: env where
  "ex_env =
     \<lparr>local_tza = 0,
      SCHEDULE_EXECUTOR_API_KEY = Some ''secret'',
      SUPABASE_URL = Some ''https://db.example'',
      SUPABASE_SERVICE_ROLE_KEY = Some ''service'',
      SIMPLEMDM_API_KEY = Some ''mdm'',
      VITE_SIMPLEMDM_API_KEY = None,
      createClient_error = None,
      json_parse = ex_parse,
      toLowerCase = ascii_toLowerCase,
      select_error = None,
      devices_reply = (\<lambda>schedule. DirectoryBody (Some ex_devices)),
      push_reply = (\<lambda>profile dev. if dev = 2 then PushRejected 404 ''Not Found'' else PushOk),
      update_error = (\<lambda>schedule. None)\<rparr>"

text \<open>The same, but every update of the table fails.\<close>

definition ex_env_update_fails :: env where
  "ex_env_update_fails = ex_env\<lparr>update_error := (\<lambda>schedule. Some ''connection reset'')\<rparr>"

definition ex_world :: world where
  "ex_world = \<lparr>store = [job_daily, job_once], pushed = []\<rparr>"

definition manual_request :: request where
  "manual_request = \<lparr>req_method = ''POST'', x_api_key = Some ''secret'', x_vercel_cron = None\<rparr>"

definition wrong_key_request :: request where
  "wrong_key_request = \<lparr>req_method = ''POST'', x_api_key = Some ''guess'', x_vercel_cron = None\<rparr>"

definition cron_request :: request where
  "cron_request = \<lparr>req_method = ''GET'', x_api_key = None, x_vercel_cron = Some ''true''\<rparr>"

text \<open>The rows of the two schedules after a successful write-back.\<close>

definition job_daily_next :: schedule where
  "job_daily_next = job_daily\<lparr>start_time := 1704186300000\<rparr>"

definition job_once_done :: schedule where
  "job_once_done = job_once\<lparr>last_executed_at := Some ex_now\<rparr>"

text \<open>A schedule whose filter is the JSON text \<open>null\<close>.\<close>

definition job_null_filter :: schedule where
  "job_null_filter = job_once\<lparr>device_filter := Some ''null''\<rparr>"

text \<open>
  Two overlapping runs: both query the table before either writes back. Run A then
  executes its selection; run B, a second later, executes the selection it made from the
  table as it was before.
\<close>

definition run_a :: "outcome list \<times> world" where
  "run_a = execute_all ex_env ex_now (schedulesToExecute (store ex_world) ex_now) ex_world"

definition run_b :: "outcome list \<times> world" where
  "run_b = execute_all ex_env (ex_now + 1000)
             (schedulesToExecute (store ex_world) (ex_now + 1000)) (snd run_a)"

section \<open>Properties\<close>

subsection \<open>Facts about dates\<close>

lemma month_cases:
  "0 \<le> m \<Longrightarrow> m \<le> 11 \<Longrightarrow>
   m = 0 \<or> m = 1 \<or> m = 2 \<or> m = 3 \<or> m = 4 \<or> m = 5 \<or> m = 6 \<or> m = 7 \<or> m = 8 \<or> m = 9 \<or> m = 10
     \<or> m = (11::int)"
  by arith

lemma month_of_range: "0 \<le> month_of l w \<and> month_of l w \<le> 11"
  by (simp add: month_of_def)

lemma month_of_start:
  assumes "l = 0 \<or> l = 1" "0 \<le> m" "m \<le> 11" "1 \<le> dt" "dt \<le> month_length l m"
  shows "month_of l (month_start l m + dt - 1) = m"
  using assms(1) month_cases [OF assms(2,3)] assms(4,5)
  apply (elim disjE)
  apply (simp_all add: month_of_def month_start_def month_length_def)
  done

lemma month_start_next:
  assumes "0 \<le> m" "m \<le> 10"
  shows "month_start l (m + 1) = month_start l m + month_length l m"
proof -
  have "m = 0 \<or> m = 1 \<or> m = 2 \<or> m = 3 \<or> m = 4 \<or> m = 5 \<or> m = 6 \<or> m = 7 \<or> m = 8 \<or> m = 9 \<or> m = 10"
    using assms by arith
  then show ?thesis
    apply (elim disjE)
    apply (simp_all add: month_start_def month_length_def)
    done
qed

lemma month_start_le:
  assumes "0 \<le> l" "0 \<le> w"
  shows "month_start l (month_of l w) \<le> w"
  using assms month_cases [OF month_of_range [of l w, THEN conjunct1] month_of_range [of l w, THEN conjunct2]]
  apply (elim disjE)
  apply (simp_all add: month_start_def)
  apply (simp_all add: month_of_def split: if_splits)
  done

lemma month_length_pos: "0 \<le> l \<Longrightarrow> 0 < month_length l m"
  by (simp add: month_length_def)

lemma MonthFromDay_range: "0 \<le> MonthFromDay d \<and> MonthFromDay d \<le> 11"
  by (simp add: MonthFromDay_def month_of_range)

lemma MakeDay_inverse:
  "MakeDay (YearFromDay d) (MonthFromDay d) (DateFromDay d + n) = d + n"
proof -
  have "MonthFromDay d div 12 = 0" "MonthFromDay d mod 12 = MonthFromDay d"
    using MonthFromDay_range [of d] by simp_all
  then show ?thesis
    by (simp add: MakeDay_def DateFromDay_def DayWithinYear_def)
qed

lemma MakeDate_split: "MakeDate (Day t + n) (TimeWithinDay t) = t + n * msPerDay"
  by (simp add: MakeDate_def Day_def TimeWithinDay_def algebra_simps)

lemma setDate_getDate: "setDate tza t (getDate tza t + n) = t + n * msPerDay"
  by (simp add: setDate_def getDate_def Let_def YearFromTime_def MonthFromTime_def
        DateFromTime_def MakeDay_inverse MakeDate_split UTC_def LocalTime_def)

lemma TimeWithinDay_add_days: "TimeWithinDay (t + n * msPerDay) = TimeWithinDay t"
  by (simp add: TimeWithinDay_def)

lemma local_time_of_day_add_days:
  "TimeWithinDay (LocalTime tza (t + n * msPerDay)) = TimeWithinDay (LocalTime tza t)"
proof -
  have "LocalTime tza (t + n * msPerDay) = LocalTime tza t + n * msPerDay"
    by (simp add: LocalTime_def)
  then show ?thesis by (simp only: TimeWithinDay_add_days)
qed

lemma DayFromYear_1970: "DayFromYear 1970 = 0"
  by (simp add: DayFromYear_def)

lemma DayFromYear_upper_pos: "1970 \<le> y \<Longrightarrow> DayFromYear y \<le> 366 * (y - 1970)"
proof (induction y rule: int_ge_induct)
  case base
  show ?case by (simp add: DayFromYear_1970)
next
  case (step i)
  have "DaysInYear i \<le> 366" by (simp add: DaysInYear_def)
  with step show ?case by (simp add: DayFromYear_step)
qed

lemma DayFromYear_upper_neg: "y \<le> 1970 \<Longrightarrow> DayFromYear y \<le> 365 * (y - 1970)"
proof (induction y rule: int_le_induct)
  case base
  show ?case by (simp add: DayFromYear_1970)
next
  case (step i)
  have "365 \<le> DaysInYear (i - 1)" by (simp add: DaysInYear_def)
  moreover have "DayFromYear i = DayFromYear (i - 1) + DaysInYear (i - 1)"
    using DayFromYear_step [of "i - 1"] by simp
  ultimately show ?case using step by simp
qed

lemma year_search_spec:
  "DayFromYear y \<le> d \<Longrightarrow>
   DayFromYear (year_search d y) \<le> d \<and> d < DayFromYear (year_search d y + 1)"
proof (induction d y rule: year_search.induct)
  case (1 d y)
  show ?case
  proof (cases "DayFromYear (y + 1) \<le> d")
    case True
    then show ?thesis using "1.IH" by (subst (1 2) year_search.simps) simp
  next
    case False
    then show ?thesis using "1.prems" by (subst (1 2) year_search.simps) simp
  qed
qed

lemma year_estimate: "DayFromYear (1970 + (if 0 \<le> d then d div 366 else d div 365)) \<le> d"
proof (cases "0 \<le> d")
  case True
  have "DayFromYear (1970 + d div 366) \<le> 366 * (d div 366)"
    using DayFromYear_upper_pos [of "1970 + d div 366"] True by (simp add: pos_imp_zdiv_nonneg_iff)
  also have "\<dots> \<le> d" by simp
  finally show ?thesis using True by simp
next
  case False
  then have "d div 365 < 0" by (simp add: neg_imp_zdiv_neg_iff)
  then have "DayFromYear (1970 + d div 365) \<le> 365 * (d div 365)"
    using DayFromYear_upper_neg [of "1970 + d div 365"] by simp
  also have "\<dots> \<le> d" by simp
  finally show ?thesis using False by simp
qed

lemma YearFromDay_spec:
  "DayFromYear (YearFromDay d) \<le> d \<and> d < DayFromYear (YearFromDay d + 1)"
  unfolding YearFromDay_def by (rule year_search_spec) (rule year_estimate)

lemma DayFromYear_mono: "y \<le> z \<Longrightarrow> DayFromYear y \<le> DayFromYear z"
proof (induction z rule: int_ge_induct)
  case base
  show ?case by simp
next
  case (step i)
  then show ?case using DayFromYear_less [of i] by simp
qed

lemma YearFromDay_eq:
  assumes "DayFromYear y \<le> d" and "d < DayFromYear (y + 1)"
  shows "YearFromDay d = y"
proof (rule ccontr)
  assume ne: "YearFromDay d \<noteq> y"
  let ?z = "YearFromDay d"
  have s: "DayFromYear ?z \<le> d" "d < DayFromYear (?z + 1)"
    using YearFromDay_spec [of d] by simp_all
  show False
  proof (cases "?z < y")
    case True
    then have "DayFromYear (?z + 1) \<le> DayFromYear y" by (intro DayFromYear_mono) simp
    with s assms show False by simp
  next
    case False
    with ne have "y + 1 \<le> ?z" by simp
    then have "DayFromYear (y + 1) \<le> DayFromYear ?z" by (rule DayFromYear_mono)
    with s assms show False by simp
  qed
qed

lemma InLeapYear_cases: "InLeapYear y = 0 \<or> InLeapYear y = 1"
  by (simp add: InLeapYear_def)

lemma DaysInYear_leap: "DaysInYear y = 365 + InLeapYear y"
  by (simp add: InLeapYear_def DaysInYear_def)

lemma day_in_year:
  assumes l: "l = 0 \<or> l = 1" and m: "0 \<le> m" "m \<le> 11"
    and dt: "1 \<le> dt" "dt \<le> month_length l m"
  shows "0 \<le> month_start l m + dt - 1 \<and> month_start l m + dt - 1 < 365 + l"
  using l month_cases [OF m] dt
  apply (elim disjE)
  apply (simp_all add: month_start_def month_length_def)
  done

lemma fields_of_day:
  assumes m: "0 \<le> m" "m \<le> 11"
    and dt: "1 \<le> dt" "dt \<le> DaysInMonth y m"
    and d: "d = DayFromYear y + month_start (InLeapYear y) m + dt - 1"
  shows "YearFromDay d = y \<and> MonthFromDay d = m \<and> DateFromDay d = dt"
proof -
  define w where "w = month_start (InLeapYear y) m + dt - 1"
  have dt': "dt \<le> month_length (InLeapYear y) m" using dt by (simp add: DaysInMonth_def)
  have w: "0 \<le> w \<and> w < 365 + InLeapYear y"
    unfolding w_def by (rule day_in_year [OF InLeapYear_cases m dt(1) dt'])
  have dw: "d = DayFromYear y + w" by (simp add: d w_def)
  have yr: "YearFromDay d = y"
    by (rule YearFromDay_eq) (use w dw in \<open>simp_all add: DayFromYear_step DaysInYear_leap\<close>)
  have dwy: "DayWithinYear d = w"
    unfolding DayWithinYear_def yr by (simp add: dw)
  have mo: "MonthFromDay d = m"
    unfolding MonthFromDay_def yr dwy w_def
    by (rule month_of_start [OF InLeapYear_cases m dt(1) dt'])
  have "DateFromDay d = dt"
    by (simp add: DateFromDay_def dwy yr mo w_def)
  with yr mo show ?thesis by simp
qed

lemma TimeWithinDay_range: "0 \<le> TimeWithinDay t \<and> TimeWithinDay t < msPerDay"
  by (simp add: TimeWithinDay_def msPerDay_def)

lemma Day_MakeDate:
  "0 \<le> tm \<Longrightarrow> tm < msPerDay \<Longrightarrow> Day (MakeDate day tm) = day"
  by (simp add: Day_def MakeDate_def msPerDay_def)

lemma TimeWithinDay_MakeDate:
  "0 \<le> tm \<Longrightarrow> tm < msPerDay \<Longrightarrow> TimeWithinDay (MakeDate day tm) = tm"
  by (simp add: TimeWithinDay_def MakeDate_def msPerDay_def)

lemma DayWithinYear_range:
  "0 \<le> DayWithinYear d \<and> DayWithinYear d < 365 + InLeapYear (YearFromDay d)"
  using YearFromDay_spec [of d]
  by (simp add: DayWithinYear_def DayFromYear_step DaysInYear_leap)

lemma DateFromDay_ge: "1 \<le> DateFromDay d"
proof -
  have "0 \<le> InLeapYear (YearFromDay d)" using InLeapYear_cases [of "YearFromDay d"] by auto
  then have "month_start (InLeapYear (YearFromDay d)) (MonthFromDay d) \<le> DayWithinYear d"
    unfolding MonthFromDay_def using DayWithinYear_range [of d] by (intro month_start_le) simp_all
  then show ?thesis by (simp add: DateFromDay_def)
qed

text \<open>Moving to the next month adds the length of the current month.\<close>

lemma MakeDay_next_month:
  "MakeDay (YearFromDay d) (MonthFromDay d + 1) (DateFromDay d)
     = d + DaysInMonth (YearFromDay d) (MonthFromDay d)"
proof (cases "MonthFromDay d \<le> 10")
  case True
  have r: "0 \<le> MonthFromDay d" using MonthFromDay_range [of d] by simp
  have "(MonthFromDay d + 1) div 12 = 0" "(MonthFromDay d + 1) mod 12 = MonthFromDay d + 1"
    using True r by simp_all
  then show ?thesis
    by (simp add: MakeDay_def DateFromDay_def DayWithinYear_def DaysInMonth_def
          month_start_next [OF r True])
next
  case False
  then have m: "MonthFromDay d = 11" using MonthFromDay_range [of d] by simp
  show ?thesis
    by (simp add: MakeDay_def DateFromDay_def DayWithinYear_def DaysInMonth_def m
          DayFromYear_step DaysInYear_leap month_start_def month_length_def)
qed

lemma setMonth_getMonth:
  "setMonth tza t (getMonth tza t + 1)
     = t + DaysInMonth (getFullYear tza t) (getMonth tza t) * msPerDay"
  by (simp add: setMonth_def getMonth_def getFullYear_def Let_def YearFromTime_def
        MonthFromTime_def DateFromTime_def MakeDay_next_month MakeDate_split UTC_def LocalTime_def)

lemma setMonth_fields:
  assumes le: "getDate tza t
      \<le> DaysInMonth (getFullYear tza t + (getMonth tza t + 1) div 12) ((getMonth tza t + 1) mod 12)"
  shows "getFullYear tza (setMonth tza t (getMonth tza t + 1))
           = getFullYear tza t + (getMonth tza t + 1) div 12
       \<and> getMonth tza (setMonth tza t (getMonth tza t + 1)) = (getMonth tza t + 1) mod 12
       \<and> getDate tza (setMonth tza t (getMonth tza t + 1)) = getDate tza t
       \<and> TimeWithinDay (LocalTime tza (setMonth tza t (getMonth tza t + 1)))
           = TimeWithinDay (LocalTime tza t)"
proof -
  define lt where "lt = LocalTime tza t"
  define d where "d = Day lt"
  define ym where "ym = YearFromDay d + (MonthFromDay d + 1) div 12"
  define mn where "mn = (MonthFromDay d + 1) mod 12"
  define d' where "d' = MakeDay (YearFromDay d) (MonthFromDay d + 1) (DateFromDay d)"
  define t' where "t' = setMonth tza t (getMonth tza t + 1)"
  have old: "getFullYear tza t = YearFromDay d" "getMonth tza t = MonthFromDay d"
    "getDate tza t = DateFromDay d"
    by (simp_all add: getFullYear_def getMonth_def getDate_def YearFromTime_def
          MonthFromTime_def DateFromTime_def lt_def d_def)
  have loc: "LocalTime tza t' = MakeDate d' (TimeWithinDay lt)"
    by (simp add: t'_def setMonth_def getMonth_def Let_def LocalTime_def UTC_def lt_def d_def
          d'_def YearFromTime_def MonthFromTime_def DateFromTime_def)
  have tw: "0 \<le> TimeWithinDay lt" "TimeWithinDay lt < msPerDay"
    using TimeWithinDay_range [of lt] by simp_all
  have day: "Day (LocalTime tza t') = d'"
    unfolding loc by (rule Day_MakeDate [OF tw])
  have tod: "TimeWithinDay (LocalTime tza t') = TimeWithinDay lt"
    unfolding loc by (rule TimeWithinDay_MakeDate [OF tw])
  have mn: "0 \<le> mn" "mn \<le> 11" by (simp_all add: mn_def)
  have le': "DateFromDay d \<le> DaysInMonth ym mn"
    using le unfolding old ym_def mn_def .
  have d'_eq: "d' = DayFromYear ym + month_start (InLeapYear ym) mn + DateFromDay d - 1"
    by (simp add: d'_def MakeDay_def Let_def ym_def mn_def)
  have f: "YearFromDay d' = ym \<and> MonthFromDay d' = mn \<and> DateFromDay d' = DateFromDay d"
    by (rule fields_of_day [OF mn DateFromDay_ge le' d'_eq])
  have new: "getFullYear tza t' = YearFromDay d'" "getMonth tza t' = MonthFromDay d'"
    "getDate tza t' = DateFromDay d'"
    by (simp_all add: getFullYear_def getMonth_def getDate_def YearFromTime_def
          MonthFromTime_def DateFromTime_def day)
  have "getFullYear tza t' = getFullYear tza t + (getMonth tza t + 1) div 12
       \<and> getMonth tza t' = (getMonth tza t + 1) mod 12
       \<and> getDate tza t' = getDate tza t
       \<and> TimeWithinDay (LocalTime tza t') = TimeWithinDay (LocalTime tza t)"
    using f by (simp add: new old tod ym_def mn_def lt_def)
  then show ?thesis unfolding t'_def .
qed

lemma getDay_range: "0 \<le> getDay tza t \<and> getDay tza t \<le> 6"
  by (simp add: getDay_def WeekDay_def)

lemma find_sorted_Min:
  fixes c :: int
  assumes "sorted xs"
  shows "find (\<lambda>d. c < d) xs
           = (if \<exists>d\<in>set xs. c < d then Some (Min {d \<in> set xs. c < d}) else None)"
  using assms
proof (induction xs)
  case Nil
  show ?case by simp
next
  case (Cons x xs)
  show ?case
  proof (cases "c < x")
    case True
    have "Min {d \<in> set (x # xs). c < d} = x"
    proof (rule Min_eqI)
      show "finite {d \<in> set (x # xs). c < d}" by simp
      show "x \<in> {d \<in> set (x # xs). c < d}" using True by simp
      fix y assume "y \<in> {d \<in> set (x # xs). c < d}"
      then show "x \<le> y" using Cons.prems by auto
    qed
    with True show ?thesis by auto
  next
    case False
    then have "{d \<in> set (x # xs). c < d} = {d \<in> set xs. c < d}" by auto
    moreover have "sorted xs" using Cons.prems by simp
    ultimately show ?thesis using False Cons.IH by auto
  qed
qed

lemma hd_sorted_Min:
  fixes xs :: "int list"
  assumes "sorted xs" "xs \<noteq> []"
  shows "hd xs = Min (set xs)"
proof (cases xs)
  case Nil
  with assms show ?thesis by simp
next
  case (Cons x ys)
  have "Min (set (x # ys)) = x"
  proof (rule Min_eqI)
    show "finite (set (x # ys))" by simp
    show "x \<in> set (x # ys)" by simp
    fix y assume "y \<in> set (x # ys)"
    then show "x \<le> y" using assms(1) Cons by auto
  qed
  then show ?thesis by (simp add: Cons)
qed

lemma weekly_form:
  "\<exists>k. calculateNextExecutionTime tza t ''weekly'' rd = Some (t + k * msPerDay)"
  by (auto simp add: calculateNextExecutionTime_def Let_def setDate_getDate
        split: option.splits)

lemma days_positive: "0 < k \<Longrightarrow> t < t + k * msPerDay"
  by (simp add: msPerDay_def)

lemma next_time_later:
  assumes nt: "calculateNextExecutionTime tza t p rd = Some nt"
    and wd: "\<forall>days. rd = Some days \<longrightarrow> (\<forall>d\<in>set days. 0 \<le> d \<and> d \<le> 6)"
  shows "t < nt"
proof -
  consider (daily) "p = ''daily''" | (weekly) "p = ''weekly''" | (monthly) "p = ''monthly''"
    | (other) "p \<noteq> ''daily'' \<and> p \<noteq> ''weekly'' \<and> p \<noteq> ''monthly''"
    by blast
  then show ?thesis
  proof cases
    case daily
    then have "nt = t + 1 * msPerDay"
      using nt setDate_getDate [of tza t 1] by (simp add: calculateNextExecutionTime_def)
    then show ?thesis using days_positive [of 1 t] by simp
  next
    case weekly
    let ?cur = "getDay tza t"
    have cur: "0 \<le> ?cur" "?cur \<le> 6" using getDay_range [of tza t] by simp_all
    show ?thesis
    proof (cases "\<exists>days. rd = Some days \<and> days \<noteq> []")
      case False
      then have "nt = t + 7 * msPerDay"
        using nt weekly
        by (cases rd) (auto simp add: calculateNextExecutionTime_def setDate_getDate)
      then show ?thesis using days_positive [of 7 t] by simp
    next
      case True
      then obtain days where rd: "rd = Some days" and ne: "days \<noteq> []" by blast
      show ?thesis
      proof (cases "find (\<lambda>day. ?cur < day) (sort days)")
        case None
        have "set (sort days) = set days" by simp
        then have "sort days \<noteq> []" using ne by (metis set_empty)
        then have "hd (sort days) \<in> set days" using hd_in_set [of "sort days"] by simp
        then have "0 \<le> hd (sort days)" using wd rd by blast
        then have k: "0 < 7 - ?cur + hd (sort days)" using cur by simp
        have "nt = t + (7 - ?cur + hd (sort days)) * msPerDay"
          using nt weekly rd ne None
          by (simp add: calculateNextExecutionTime_def Let_def setDate_getDate)
        then show ?thesis using days_positive [OF k, of t] by simp
      next
        case (Some nextDay)
        then have k: "0 < nextDay - ?cur" by (auto simp add: find_Some_iff)
        have "nt = t + (nextDay - ?cur) * msPerDay"
          using nt weekly rd ne Some
          by (simp add: calculateNextExecutionTime_def Let_def setDate_getDate)
        then show ?thesis using days_positive [OF k, of t] by simp
      qed
    qed
  next
    case monthly
    have "0 \<le> InLeapYear (getFullYear tza t)"
      using InLeapYear_cases [of "getFullYear tza t"] by auto
    then have k: "0 < DaysInMonth (getFullYear tza t) (getMonth tza t)"
      unfolding DaysInMonth_def by (rule month_length_pos)
    have "nt = t + DaysInMonth (getFullYear tza t) (getMonth tza t) * msPerDay"
      using nt monthly by (simp add: calculateNextExecutionTime_def setMonth_getMonth)
    then show ?thesis using days_positive [OF k, of t] by simp
  next
    case other
    then show ?thesis using nt by (simp add: calculateNextExecutionTime_def)
  qed
qed

lemma ex_fields_jan15:
  "getFullYear 0 1705309200000 = 2024 \<and> getMonth 0 1705309200000 = 0
   \<and> getDate 0 1705309200000 = 15"
  by code_simp

text \<open>
  The closed form of \<open>MakeDay\<close> meets its specification: the day it yields for the first
  of a month has that year, that month and the date 1.
\<close>

lemma MakeDay_first_of_month:
  assumes m: "0 \<le> m" "m \<le> 11"
  shows "YearFromDay (MakeDay y m 1) = y \<and> MonthFromDay (MakeDay y m 1) = m
         \<and> DateFromDay (MakeDay y m 1) = 1"
proof -
  have "0 \<le> InLeapYear y" using InLeapYear_cases [of y] by auto
  then have len: "1 \<le> DaysInMonth y m" by (simp add: DaysInMonth_def month_length_def)
  have "m div 12 = 0" "m mod 12 = m" using m by simp_all
  then have d: "MakeDay y m 1 = DayFromYear y + month_start (InLeapYear y) m + 1 - 1"
    by (simp add: MakeDay_def)
  show ?thesis by (rule fields_of_day [OF m _ len d]) simp
qed

text \<open>
  Known dates: the epoch is Thursday 1970-01-01, 951782400000 is 2000-02-29, the
  millisecond before the epoch lies on 1969-12-31, and 1704099600000 is Monday 2024-01-01.
\<close>

lemma date_model_examples:
  "YearFromTime 0 = 1970 \<and> MonthFromTime 0 = 0 \<and> DateFromTime 0 = 1 \<and> WeekDay 0 = 4"
  "YearFromTime 951782400000 = 2000 \<and> MonthFromTime 951782400000 = 1
   \<and> DateFromTime 951782400000 = 29"
  "YearFromTime (- 1) = 1969 \<and> MonthFromTime (- 1) = 11 \<and> DateFromTime (- 1) = 31"
  "YearFromTime 1704099600000 = 2024 \<and> MonthFromTime 1704099600000 = 0
   \<and> DateFromTime 1704099600000 = 1 \<and> WeekDay 1704099600000 = 1"
  by code_simp+

text \<open>The weekday after \<open>n\<close> days; the weekly rule lands on the day it aims at.\<close>

lemma getDay_add_days: "getDay tza (t + n * msPerDay) = (getDay tza t + n) mod 7"
proof -
  have "Day (t + tza + n * msPerDay) = Day (t + tza) + n"
    by (simp add: Day_def msPerDay_def)
  then have "Day (LocalTime tza (t + n * msPerDay)) = Day (LocalTime tza t) + n"
    by (simp add: LocalTime_def add.assoc add.left_commute add.commute)
  then show ?thesis
    by (simp add: getDay_def WeekDay_def mod_simps add.assoc add.left_commute add.commute)
qed

lemma weekly_lands_on_target:
  assumes "0 \<le> target" "target \<le> 6"
  shows "getDay tza (t + (target - getDay tza t) * msPerDay) = target"
    and "getDay tza (t + (7 - getDay tza t + target) * msPerDay) = target"
  using assms by (simp_all add: getDay_add_days)

subsection \<open>Auxiliary facts about the handler\<close>

lemma execute_schedule_id: "scheduleId (fst (execute_schedule e now s w)) = schedule_id s"
  by (simp add: execute_schedule_def failed_outcome_def Let_def split: sum.splits option.splits)

lemma execute_all_ids: "map scheduleId (fst (execute_all e now sel w)) = map schedule_id sel"
proof (induction sel arbitrary: w)
  case Nil
  show ?case by simp
next
  case (Cons s sel)
  obtain r w1 where r: "execute_schedule e now s w = (r, w1)" by (cases "execute_schedule e now s w")
  obtain rs w2 where rs: "execute_all e now sel w1 = (rs, w2)" by (cases "execute_all e now sel w1")
  have "scheduleId r = schedule_id s" using execute_schedule_id [of e now s w] r by simp
  moreover have "map scheduleId rs = map schedule_id sel" using Cons.IH [of w1] rs by simp
  ultimately show ?case by (simp add: r rs)
qed

lemma targetDevices_total: "\<exists>devices. targetDevices e s = Inr devices"
  by (simp add: targetDevices_def try_catch_def split: sum.splits option.splits)

lemma targetDevices_push_reply: "targetDevices (e\<lparr>push_reply := p\<rparr>) s = targetDevices e s"
  by (simp add: targetDevices_def cong: option.case_cong)

lemma updateData_push_reply: "updateData (e\<lparr>push_reply := p\<rparr>) now s = updateData e now s"
  by (simp add: updateData_def cong: option.case_cong if_cong)

lemma execute_schedule_success:
  "update_error e s = None \<Longrightarrow> success (fst (execute_schedule e now s w))"
proof -
  assume u: "update_error e s = None"
  obtain devices where "targetDevices e s = Inr devices"
    using targetDevices_total by blast
  then show ?thesis by (simp add: execute_schedule_def Let_def u)
qed

lemma set_schedulesToExecute:
  "set (schedulesToExecute table now) = {row \<in> set table. due now row}"
  by (auto simp add: schedulesToExecute_def due_def pastWindow_def)

lemma executed_never_selected:
  "last_executed_at r \<noteq> None \<Longrightarrow> r \<notin> set (schedulesToExecute table now)"
  by (simp add: set_schedulesToExecute due_def)

lemma updated_row:
  assumes "r \<in> set (update_schedules u i table)" and "schedule_id r = i"
  shows "\<exists>r0\<in>set table. schedule_id r0 = i \<and> r = apply_update u r0"
  using assms by (auto simp add: update_schedules_def apply_update_def split: if_splits)

lemma update_schedules_ids: "map schedule_id (update_schedules u i table) = map schedule_id table"
  by (simp add: update_schedules_def apply_update_def)

lemma execute_schedule_store:
  assumes "update_error e s = None"
  shows "store (snd (execute_schedule e now s w))
           = update_schedules (updateData e now s) (schedule_id s) (store w)"
proof -
  obtain devices where "targetDevices e s = Inr devices"
    using targetDevices_total by blast
  then show ?thesis using assms by (simp add: execute_schedule_def Let_def)
qed

lemma execute_schedule_next:
  assumes "update_error e s = None"
  shows "nextExecution (fst (execute_schedule e now s w)) = ud_start_time (updateData e now s)"
proof -
  obtain devices where "targetDevices e s = Inr devices"
    using targetDevices_total by blast
  then show ?thesis using assms by (simp add: execute_schedule_def Let_def)
qed

lemma execute_schedule_failed:
  assumes "update_error e s = Some m"
  shows "store (snd (execute_schedule e now s w)) = store w
         \<and> \<not> success (fst (execute_schedule e now s w))
         \<and> error (fst (execute_schedule e now s w)) = Some (''Failed to update schedule: '' @ m)"
proof -
  obtain devices where "targetDevices e s = Inr devices"
    using targetDevices_total by blast
  then show ?thesis using assms by (simp add: execute_schedule_def Let_def failed_outcome_def)
qed

lemma execute_schedule_success_iff:
  "success (fst (execute_schedule e now s w)) = (update_error e s = None)"
proof (cases "update_error e s")
  case None
  then show ?thesis using execute_schedule_success [of e s now w] by simp
next
  case (Some m)
  then show ?thesis using execute_schedule_failed [of e s m now w] by simp
qed

lemma execute_all_success:
  "map success (fst (execute_all e now sel w)) = map (\<lambda>s. update_error e s = None) sel"
proof (induction sel arbitrary: w)
  case Nil
  show ?case by simp
next
  case (Cons s sel)
  obtain r w1 where r: "execute_schedule e now s w = (r, w1)" by (cases "execute_schedule e now s w")
  obtain rs w2 where rs: "execute_all e now sel w1 = (rs, w2)" by (cases "execute_all e now sel w1")
  have "success r = (update_error e s = None)"
    using execute_schedule_success_iff [of e now s w] r by simp
  moreover have "map success rs = map (\<lambda>s. update_error e s = None) sel"
    using Cons.IH [of w1] rs by simp
  ultimately show ?case by (simp add: r rs)
qed

text \<open>
  A row that is marked as executed is not touched by any run, as long as the ids of the
  table are distinct: no schedule that a run selects has its id.
\<close>

lemma update_schedules_keeps:
  "schedule_id r \<noteq> i \<Longrightarrow> r \<in> set table \<Longrightarrow> r \<in> set (update_schedules u i table)"
  by (force simp add: update_schedules_def)

lemma execute_schedule_store_cases:
  "store (snd (execute_schedule e now s w)) = store w
   \<or> store (snd (execute_schedule e now s w))
       = update_schedules (updateData e now s) (schedule_id s) (store w)"
proof (cases "update_error e s")
  case None
  then show ?thesis using execute_schedule_store [of e s now w] by simp
next
  case (Some m)
  then show ?thesis using execute_schedule_failed [of e s m now w] by simp
qed

lemma execute_schedule_keeps:
  assumes "schedule_id s \<noteq> schedule_id r" and "r \<in> set (store w)"
  shows "r \<in> set (store (snd (execute_schedule e now s w)))"
  using execute_schedule_store_cases [of e now s w] assms
    update_schedules_keeps [of r "schedule_id s" "store w" "updateData e now s"]
  by auto

lemma execute_schedule_store_ids:
  "map schedule_id (store (snd (execute_schedule e now s w))) = map schedule_id (store w)"
  using execute_schedule_store_cases [of e now s w] by (auto simp add: update_schedules_ids)

lemma execute_all_keeps:
  assumes "\<forall>s\<in>set sel. schedule_id s \<noteq> schedule_id r" and "r \<in> set (store w)"
  shows "r \<in> set (store (snd (execute_all e now sel w)))"
  using assms
proof (induction sel arbitrary: w)
  case Nil
  then show ?case by simp
next
  case (Cons s sel)
  obtain o1 w1 where 1: "execute_schedule e now s w = (o1, w1)"
    by (cases "execute_schedule e now s w")
  obtain os w2 where 2: "execute_all e now sel w1 = (os, w2)"
    by (cases "execute_all e now sel w1")
  have "r \<in> set (store w1)"
    using execute_schedule_keeps [of s r w e now] Cons.prems 1 by simp
  then have "r \<in> set (store (snd (execute_all e now sel w1)))"
    using Cons.IH [of w1] Cons.prems by simp
  then show ?case by (simp add: 1 2)
qed

lemma execute_all_store_ids:
  "map schedule_id (store (snd (execute_all e now sel w))) = map schedule_id (store w)"
proof (induction sel arbitrary: w)
  case Nil
  show ?case by simp
next
  case (Cons s sel)
  obtain o1 w1 where 1: "execute_schedule e now s w = (o1, w1)"
    by (cases "execute_schedule e now s w")
  obtain os w2 where 2: "execute_all e now sel w1 = (os, w2)"
    by (cases "execute_all e now sel w1")
  have "map schedule_id (store w1) = map schedule_id (store w)"
    using execute_schedule_store_ids [of e now s w] 1 by simp
  moreover have "map schedule_id (store w2) = map schedule_id (store w1)"
    using Cons.IH [of w1] 2 by simp
  ultimately show ?case by (simp add: 1 2)
qed

lemma handler_store_cases:
  "snd (handler e req now w) = w
   \<or> snd (handler e req now w)
       = snd (execute_all e now (schedulesToExecute (store w) now) w)"
  by (simp add: handler_def Let_def split: option.splits prod.splits)

lemma handler_keeps:
  assumes d: "distinct (map schedule_id (store w))"
    and r: "r \<in> set (store w)" and l: "last_executed_at r \<noteq> None"
  shows "r \<in> set (store (snd (handler e req now w)))"
proof -
  have "\<forall>s\<in>set (schedulesToExecute (store w) now). schedule_id s \<noteq> schedule_id r"
  proof
    fix s assume "s \<in> set (schedulesToExecute (store w) now)"
    then have s: "s \<in> set (store w)" "last_executed_at s = None"
      by (simp_all add: set_schedulesToExecute due_def)
    then have "s \<noteq> r" using l by auto
    moreover have "inj_on schedule_id (set (store w))" using d by (simp add: distinct_map)
    ultimately show "schedule_id s \<noteq> schedule_id r" using s r by (auto dest: inj_onD)
  qed
  then have "r \<in> set (store (snd (execute_all e now (schedulesToExecute (store w) now) w)))"
    using r by (rule execute_all_keeps)
  then show ?thesis using handler_store_cases [of e req now w] r by auto
qed

lemma handler_store_ids:
  "map schedule_id (store (snd (handler e req now w))) = map schedule_id (store w)"
  using handler_store_cases [of e req now w] by (auto simp add: execute_all_store_ids)

lemma handler_runs_keeps:
  assumes "distinct (map schedule_id (store w))"
    and "r \<in> set (store w)" and "last_executed_at r \<noteq> None"
  shows "r \<in> set (store (handler_runs runs w))"
  using assms
proof (induction runs arbitrary: w)
  case Nil
  then show ?case by simp
next
  case (Cons run runs)
  obtain e req now where run: "run = (e, req, now)" by (cases run)
  have "distinct (map schedule_id (store (snd (handler e req now w))))"
    using Cons.prems(1) by (simp add: handler_store_ids)
  moreover have "r \<in> set (store (snd (handler e req now w)))"
    using Cons.prems by (rule handler_keeps)
  ultimately show ?case using Cons.IH Cons.prems(3) by (simp add: run)
qed

subsection \<open>Facts about the sample data\<close>

lemma ex_daily_next:
  "calculateNextExecutionTime 0 1704099900000 ''daily'' None = Some 1704186300000"
  by (simp add: calculateNextExecutionTime_def setDate_getDate msPerDay_def)

lemma ex_targets_once: "targetDevices ex_env job_once = Inr ex_devices"
  by (simp add: targetDevices_def truthy_string_def fetchAllDevices_def ex_env_def job_once_def)

lemma ex_targets_daily: "targetDevices ex_env job_daily = Inr []"
  by (simp add: targetDevices_def truthy_string_def try_catch_def ex_env_def job_daily_def
        ex_parse_def)

lemma ex_update_once:
  "updateData ex_env ex_now job_once = \<lparr>ud_last_executed_at = Some ex_now, ud_start_time = None\<rparr>"
  by (simp add: updateData_def job_once_def)

lemma ex_update_daily:
  "updateData ex_env ex_now job_daily
     = \<lparr>ud_last_executed_at = None, ud_start_time = Some 1704186300000\<rparr>"
  using ex_daily_next by (simp add: updateData_def job_daily_def ex_env_def)

lemma ex_store_after_daily:
  "store (snd (execute_schedule ex_env ex_now job_daily ex_world)) = [job_daily_next, job_once]"
proof -
  have "update_error ex_env job_daily = None" by (simp add: ex_env_def)
  from execute_schedule_store [OF this, of ex_now ex_world]
  show ?thesis
    unfolding ex_update_daily
    by (simp add: update_schedules_def apply_update_def ex_world_def job_daily_next_def
          job_daily_def job_once_def)
qed

lemma ex_selected: "schedulesToExecute (store ex_world) ex_now = [job_once, job_daily]"
  by (simp add: schedulesToExecute_def pastWindow_def ex_world_def ex_now_def job_once_def
        job_daily_def)

lemma ex_selected_later:
  "schedulesToExecute (store ex_world) (ex_now + 1000) = [job_once, job_daily]"
  by (simp add: schedulesToExecute_def pastWindow_def ex_world_def ex_now_def job_once_def
        job_daily_def)

lemma execute_schedule_pushed:
  assumes "targetDevices e s = Inr devices"
  shows "pushed (snd (execute_schedule e now s w))
           = pushed w @ map (\<lambda>dev. (profile_id s, device_id dev)) devices"
  using assms by (simp add: execute_schedule_def Let_def split: option.splits)

lemma ex_push_once:
  "pushed (snd (execute_schedule ex_env now job_once w)) = pushed w @ [(7, 1), (7, 2)]"
  using execute_schedule_pushed [OF ex_targets_once, of now w]
  by (simp add: ex_devices_def job_once_def)

lemma ex_push_daily:
  "pushed (snd (execute_schedule ex_env now job_daily w)) = pushed w"
  using execute_schedule_pushed [OF ex_targets_daily, of now w] by simp

lemma execute_all_two:
  "execute_all e now [s1, s2] w =
     (let r1 = execute_schedule e now s1 w; r2 = execute_schedule e now s2 (snd r1)
      in ([fst r1, fst r2], snd r2))"
  by (simp add: Let_def split: prod.splits)

lemma ex_store_after_once:
  "store (snd (execute_schedule ex_env ex_now job_once ex_world)) = [job_daily, job_once_done]"
proof -
  have "update_error ex_env job_once = None" by (simp add: ex_env_def)
  from execute_schedule_store [OF this, of ex_now ex_world]
  show ?thesis
    unfolding ex_update_once
    by (simp add: update_schedules_def apply_update_def ex_world_def job_once_done_def
          job_once_def job_daily_def)
qed

lemma execute_schedule_count:
  assumes "targetDevices e s = Inr devices" and "update_error e s = None"
  shows "devicesCount (fst (execute_schedule e now s w)) = Some (length devices)"
  using assms by (simp add: execute_schedule_def Let_def)

lemma ex_null_filter:
  "fetchFilteredDevices (toLowerCase ex_env) JNull (devices_reply ex_env job_null_filter)
     = Inl TypeError"
  by (simp add: fetchFilteredDevices_def fetchAllDevices_def ex_env_def)

lemma ex_fail_update: "update_error ex_env_update_fails s = Some ''connection reset''"
  by (simp add: ex_env_update_fails_def)

lemma ex_fail_targets_once: "targetDevices ex_env_update_fails job_once = Inr ex_devices"
  by (simp add: targetDevices_def truthy_string_def fetchAllDevices_def ex_env_update_fails_def
        ex_env_def job_once_def)

subsection \<open>The due window\<close>

text \<open>
  C2, as amended. For every table and every time \<open>now\<close> of the run, the query selects
  exactly the rows (each as often as the table holds it) that are enabled, have
  \<open>last_executed_at\<close> null and a \<open>start_time\<close> with
  \<open>now - 15 min < start_time \<le> now\<close>, in ascending order of \<open>start_time\<close>. The window
  is open at its lower end: the query compares with \<open>gt\<close> there.
\<close>

theorem due_selection:
  "set (schedulesToExecute table now) = {row \<in> set table. due now row}
   \<and> mset (schedulesToExecute table now) = filter_mset (due now) (mset table)
   \<and> sorted (map start_time (schedulesToExecute table now))"
proof -
  have eq: "(\<lambda>row. enabled row = True \<and> start_time row \<le> now
                  \<and> start_time row > pastWindow now \<and> last_executed_at row = None) = due now"
    by (auto simp add: due_def pastWindow_def fun_eq_iff)
  show ?thesis
    unfolding schedulesToExecute_def eq by auto
qed

text \<open>
  C2 as stated fails on the lower boundary: a schedule that is enabled, was never
  executed and started exactly fifteen minutes before the run is not selected.
\<close>

theorem boundary_not_selected:
  "enabled job_boundary \<and> last_executed_at job_boundary = None
   \<and> start_time job_boundary = ex_now - 15 * 60 * 1000
   \<and> schedulesToExecute [job_boundary] ex_now = []"
  by (simp add: job_boundary_def ex_now_def schedulesToExecute_def pastWindow_def)

subsection \<open>Authentication\<close>

text \<open>
  C5. When an expected API key is configured, a request that does not carry exactly that
  key and is not marked as coming from Vercel Cron is turned away before anything is
  read or written: the world is unchanged, the answer is 401 Unauthorized (405 when the
  method is neither POST nor GET, which is checked first). A request marked as coming
  from Vercel Cron is never answered with 401: it is treated exactly as the same request
  carrying the expected key.
\<close>

theorem unauthorized_rejected:
  "(truthy_string (SCHEDULE_EXECUTOR_API_KEY e)
      \<and> x_api_key req \<noteq> SCHEDULE_EXECUTOR_API_KEY e \<and> \<not> isVercelCron req \<longrightarrow>
      snd (handler e req now w) = w
      \<and> (fst (handler e req now w) = (401, ErrorBody ''Unauthorized'' None)
           \<or> fst (handler e req now w) = (405, ErrorBody ''Method not allowed'' None))
      \<and> (req_method req = ''POST'' \<or> req_method req = ''GET'' \<longrightarrow>
            fst (handler e req now w) = (401, ErrorBody ''Unauthorized'' None)))
   \<and> (isVercelCron req \<longrightarrow>
        fst (fst (handler e req now w)) \<noteq> 401
        \<and> handler e req now w
            = handler e (req\<lparr>x_api_key := SCHEDULE_EXECUTOR_API_KEY e\<rparr>) now w)"
proof -
  have a: "truthy_string (SCHEDULE_EXECUTOR_API_KEY e)
      \<and> x_api_key req \<noteq> SCHEDULE_EXECUTOR_API_KEY e \<and> \<not> isVercelCron req \<longrightarrow>
      snd (handler e req now w) = w
      \<and> (fst (handler e req now w) = (401, ErrorBody ''Unauthorized'' None)
           \<or> fst (handler e req now w) = (405, ErrorBody ''Method not allowed'' None))
      \<and> (req_method req = ''POST'' \<or> req_method req = ''GET'' \<longrightarrow>
            fst (handler e req now w) = (401, ErrorBody ''Unauthorized'' None))"
    by (auto simp add: handler_def)
  have b: "isVercelCron req \<longrightarrow> fst (fst (handler e req now w)) \<noteq> 401"
    by (auto simp add: handler_def Let_def split: option.splits prod.splits)
  have c: "isVercelCron req \<longrightarrow>
      handler e req now w = handler e (req\<lparr>x_api_key := SCHEDULE_EXECUTOR_API_KEY e\<rparr>) now w"
    by (simp add: handler_def isVercelCron_def)
  from a b c show ?thesis by blast
qed

theorem unauthorized_rejected_witness:
  "handler ex_env wrong_key_request ex_now ex_world
     = ((401, ErrorBody ''Unauthorized'' None), ex_world)
   \<and> fst (fst (handler ex_env cron_request ex_now ex_world)) \<noteq> 401"
proof -
  have a: "truthy_string (SCHEDULE_EXECUTOR_API_KEY ex_env)
      \<and> x_api_key wrong_key_request \<noteq> SCHEDULE_EXECUTOR_API_KEY ex_env
      \<and> \<not> isVercelCron wrong_key_request"
    by (simp add: ex_env_def wrong_key_request_def truthy_string_def isVercelCron_def)
  have b: "req_method wrong_key_request = ''POST''"
    by (simp add: wrong_key_request_def)
  have c: "isVercelCron cron_request"
    by (simp add: cron_request_def isVercelCron_def)
  from unauthorized_rejected [of ex_env wrong_key_request ex_now ex_world] a b
  have "snd (handler ex_env wrong_key_request ex_now ex_world) = ex_world"
    and "fst (handler ex_env wrong_key_request ex_now ex_world)
           = (401, ErrorBody ''Unauthorized'' None)"
    by simp_all
  then have "handler ex_env wrong_key_request ex_now ex_world
     = ((401, ErrorBody ''Unauthorized'' None), ex_world)"
    by (simp add: prod_eq_iff)
  moreover from unauthorized_rejected [of ex_env cron_request ex_now ex_world] c
  have "fst (fst (handler ex_env cron_request ex_now ex_world)) \<noteq> 401"
    by blast
  ultimately show ?thesis by simp
qed

subsection \<open>Outcomes and the report\<close>

text \<open>
  C9. The result of a job does not depend on the replies to its pushes: whenever the
  write-back of the schedule succeeds the outcome has \<open>success = True\<close>, whatever
  SimpleMDM answered to each push (the resolution of the devices never fails), and the
  whole result of the job is the same under any other push replies.
\<close>

theorem push_failures_do_not_gate:
  "(update_error e schedule = None \<longrightarrow>
      success (fst (execute_schedule (e\<lparr>push_reply := p\<rparr>) now schedule w)))
   \<and> execute_schedule (e\<lparr>push_reply := p\<rparr>) now schedule w = execute_schedule e now schedule w"
proof
  show "update_error e schedule = None \<longrightarrow>
      success (fst (execute_schedule (e\<lparr>push_reply := p\<rparr>) now schedule w))"
    using execute_schedule_success [of "e\<lparr>push_reply := p\<rparr>" schedule now w] by simp
next
  show "execute_schedule (e\<lparr>push_reply := p\<rparr>) now schedule w = execute_schedule e now schedule w"
    by (simp add: execute_schedule_def Let_def targetDevices_push_reply updateData_push_reply
          cong: sum.case_cong option.case_cong)
qed

text \<open>With every push failing, the job that runs once still succeeds for two devices.\<close>

theorem push_failures_do_not_gate_witness:
  "success (fst (execute_schedule
      (ex_env\<lparr>push_reply := (\<lambda>profile dev. PushTransportError ''fetch failed'')\<rparr>)
      ex_now job_once ex_world))
   \<and> devicesCount (fst (execute_schedule
      (ex_env\<lparr>push_reply := (\<lambda>profile dev. PushTransportError ''fetch failed'')\<rparr>)
      ex_now job_once ex_world)) = Some 2"
proof -
  have u: "update_error ex_env job_once = None"
    by (simp add: ex_env_def)
  have d: "devicesCount (fst (execute_schedule ex_env ex_now job_once ex_world)) = Some 2"
    by (simp add: execute_schedule_def Let_def targetDevices_def truthy_string_def
          fetchAllDevices_def ex_env_def job_once_def ex_devices_def)
  from push_failures_do_not_gate
         [of ex_env job_once "\<lambda>profile dev. PushTransportError ''fetch failed''" ex_now ex_world]
       u
  have s: "success (fst (execute_schedule
      (ex_env\<lparr>push_reply := (\<lambda>profile dev. PushTransportError ''fetch failed'')\<rparr>)
      ex_now job_once ex_world))"
    and eq: "execute_schedule
      (ex_env\<lparr>push_reply := (\<lambda>profile dev. PushTransportError ''fetch failed'')\<rparr>)
      ex_now job_once ex_world = execute_schedule ex_env ex_now job_once ex_world"
    by blast+
  from s d show ?thesis unfolding eq by simp
qed

text \<open>
  C10. When a run gets as far as a non-empty selection (the method is allowed, the
  caller is authorised, the configuration is present, the database client is created
  and the query succeeds), the answer
  is a report with exactly one outcome per selected schedule, in the order of the
  selection, and \<open>executed + failed\<close> is the number of selected schedules, where
  \<open>executed\<close> counts the outcomes with \<open>success\<close> and \<open>failed\<close> the others.
\<close>

theorem report_counts:
  assumes "req_method req = ''POST'' \<or> req_method req = ''GET''"
    and "\<not> truthy_string (SCHEDULE_EXECUTOR_API_KEY e)
           \<or> x_api_key req = SCHEDULE_EXECUTOR_API_KEY e \<or> isVercelCron req"
    and "truthy_string (SUPABASE_URL e)" and "truthy_string (SUPABASE_SERVICE_ROLE_KEY e)"
    and "createClient_error e = None"
    and "truthy_string (simpleMdmApiKey e)"
    and "select_error e = None"
    and "schedulesToExecute (store w) now \<noteq> []"
  shows "\<exists>executed failed results.
           fst (handler e req now w) = (200, ReportBody executed failed results)
           \<and> map scheduleId results = map schedule_id (schedulesToExecute (store w) now)
           \<and> length results = length (schedulesToExecute (store w) now)
           \<and> executed = length (filter (\<lambda>r. success r) results)
           \<and> failed = length (filter (\<lambda>r. \<not> success r) results)
           \<and> executed + failed = length (schedulesToExecute (store w) now)"
proof -
  let ?sel = "schedulesToExecute (store w) now"
  obtain results w1 where ex: "execute_all e now ?sel w = (results, w1)"
    by (cases "execute_all e now ?sel w")
  have ids: "map scheduleId results = map schedule_id ?sel"
    using execute_all_ids [of e now ?sel w] ex by simp
  then have len: "length results = length ?sel"
    by (metis length_map)
  have h: "fst (handler e req now w) =
      (200, ReportBody (length (filter (\<lambda>r. success r) results))
              (length (filter (\<lambda>r. \<not> success r) results)) results)"
    using assms ex by (auto simp add: handler_def Let_def)
  have "length (filter (\<lambda>r. success r) results) + length (filter (\<lambda>r. \<not> success r) results)
          = length ?sel"
    using sum_length_filter_compl [of "\<lambda>r. success r" results] len by simp
  with h ids len show ?thesis by blast
qed

theorem report_counts_witness:
  "\<exists>executed failed results.
     fst (handler ex_env manual_request ex_now ex_world)
       = (200, ReportBody executed failed results)
     \<and> map scheduleId results = map schedule_id (schedulesToExecute (store ex_world) ex_now)
     \<and> length results = length (schedulesToExecute (store ex_world) ex_now)
     \<and> executed = length (filter (\<lambda>r. success r) results)
     \<and> failed = length (filter (\<lambda>r. \<not> success r) results)
     \<and> executed + failed = length (schedulesToExecute (store ex_world) ex_now)"
proof (rule report_counts)
  show "req_method manual_request = ''POST'' \<or> req_method manual_request = ''GET''"
    by (simp add: manual_request_def)
  show "\<not> truthy_string (SCHEDULE_EXECUTOR_API_KEY ex_env)
           \<or> x_api_key manual_request = SCHEDULE_EXECUTOR_API_KEY ex_env
           \<or> isVercelCron manual_request"
    by (simp add: manual_request_def ex_env_def)
  show "truthy_string (SUPABASE_URL ex_env)"
    by (simp add: ex_env_def truthy_string_def)
  show "truthy_string (SUPABASE_SERVICE_ROLE_KEY ex_env)"
    by (simp add: ex_env_def truthy_string_def)
  show "createClient_error ex_env = None"
    by (simp add: ex_env_def)
  show "truthy_string (simpleMdmApiKey ex_env)"
    by (simp add: ex_env_def truthy_string_def simpleMdmApiKey_def)
  show "select_error ex_env = None"
    by (simp add: ex_env_def)
  show "schedulesToExecute (store ex_world) ex_now \<noteq> []"
    by (simp add: ex_world_def ex_now_def schedulesToExecute_def pastWindow_def
          job_once_def job_daily_def)
qed

subsection \<open>The recurrence helper\<close>

text \<open>
  C6. For the pattern \<open>weekly\<close> with a non-empty list of days, the helper takes the
  smallest listed day that is greater than the weekday of the last fire time (in local
  time) and advances by (target - current) days; when no listed day is greater it takes
  the smallest listed day and advances by (7 - current + target) days. With an empty list
  of days, or none, it advances by exactly seven days. In every case the local time of
  day is the one of the last fire time.
\<close>

theorem weekly_next:
  "(days \<noteq> [] \<and> (\<exists>d\<in>set days. getDay tza t < d) \<longrightarrow>
      calculateNextExecutionTime tza t ''weekly'' (Some days)
        = Some (t + (Min {d \<in> set days. getDay tza t < d} - getDay tza t) * msPerDay))
   \<and> (days \<noteq> [] \<and> \<not> (\<exists>d\<in>set days. getDay tza t < d) \<longrightarrow>
        calculateNextExecutionTime tza t ''weekly'' (Some days)
          = Some (t + (7 - getDay tza t + Min (set days)) * msPerDay))
   \<and> calculateNextExecutionTime tza t ''weekly'' (Some []) = Some (t + 7 * msPerDay)
   \<and> calculateNextExecutionTime tza t ''weekly'' None = Some (t + 7 * msPerDay)
   \<and> (\<forall>t'. calculateNextExecutionTime tza t ''weekly'' rd = Some t' \<longrightarrow>
         TimeWithinDay (LocalTime tza t') = TimeWithinDay (LocalTime tza t))"
proof (intro conjI impI allI)
  assume a: "days \<noteq> [] \<and> (\<exists>d\<in>set days. getDay tza t < d)"
  have "find (\<lambda>day. getDay tza t < day) (sort days)
          = Some (Min {d \<in> set days. getDay tza t < d})"
    using a find_sorted_Min [of "sort days" "getDay tza t"] by simp
  then show "calculateNextExecutionTime tza t ''weekly'' (Some days)
        = Some (t + (Min {d \<in> set days. getDay tza t < d} - getDay tza t) * msPerDay)"
    using a by (simp add: calculateNextExecutionTime_def Let_def setDate_getDate)
next
  assume a: "days \<noteq> [] \<and> \<not> (\<exists>d\<in>set days. getDay tza t < d)"
  have "find (\<lambda>day. getDay tza t < day) (sort days) = None"
    using a find_sorted_Min [of "sort days" "getDay tza t"] by simp
  moreover have "set (sort days) = set days" by simp
  then have "sort days \<noteq> []" using a by (metis set_empty)
  then have "hd (sort days) = Min (set days)"
    using hd_sorted_Min [of "sort days"] by simp
  ultimately show "calculateNextExecutionTime tza t ''weekly'' (Some days)
          = Some (t + (7 - getDay tza t + Min (set days)) * msPerDay)"
    using a by (simp add: calculateNextExecutionTime_def Let_def setDate_getDate)
next
  show "calculateNextExecutionTime tza t ''weekly'' (Some []) = Some (t + 7 * msPerDay)"
    by (simp add: calculateNextExecutionTime_def setDate_getDate)
next
  show "calculateNextExecutionTime tza t ''weekly'' None = Some (t + 7 * msPerDay)"
    by (simp add: calculateNextExecutionTime_def setDate_getDate)
next
  fix t'
  assume "calculateNextExecutionTime tza t ''weekly'' rd = Some t'"
  then obtain k where "t' = t + k * msPerDay"
    using weekly_form [of tza t rd] by auto
  then show "TimeWithinDay (LocalTime tza t') = TimeWithinDay (LocalTime tza t)"
    by (simp only: local_time_of_day_add_days)
qed

text \<open>
  From Monday 2024-01-01T09:00Z with the days Friday and Wednesday listed, the next time
  is Wednesday 2024-01-03T09:00Z; from Friday 2024-01-05T09:00Z it is Wednesday
  2024-01-10T09:00Z.
\<close>

theorem weekly_next_witness:
  "calculateNextExecutionTime 0 1704099600000 ''weekly'' (Some [5, 3])
     = Some (1704099600000
         + (Min {d \<in> set [5, 3]. getDay 0 1704099600000 < d} - getDay 0 1704099600000)
           * msPerDay)
   \<and> calculateNextExecutionTime 0 1704099600000 ''weekly'' (Some [5, 3]) = Some 1704272400000
   \<and> calculateNextExecutionTime 0 1704445200000 ''weekly'' (Some [5, 3])
     = Some (1704445200000 + (7 - getDay 0 1704445200000 + Min (set [5, 3])) * msPerDay)
   \<and> calculateNextExecutionTime 0 1704445200000 ''weekly'' (Some [5, 3]) = Some 1704877200000
   \<and> TimeWithinDay (LocalTime 0 1704272400000) = TimeWithinDay (LocalTime 0 1704099600000)"
proof -
  have mon: "getDay 0 1704099600000 = 1"
    by (simp add: getDay_def WeekDay_def Day_def LocalTime_def msPerDay_def)
  have fri: "getDay 0 1704445200000 = 5"
    by (simp add: getDay_def WeekDay_def Day_def LocalTime_def msPerDay_def)
  have a: "[5, 3] \<noteq> [] \<and> (\<exists>d\<in>set [5, 3]. getDay 0 1704099600000 < (d::int))"
    by (simp add: mon)
  have b: "[5, 3] \<noteq> [] \<and> \<not> (\<exists>d\<in>set [5, 3]. getDay 0 1704445200000 < (d::int))"
    by (simp add: fri)
  have c: "calculateNextExecutionTime 0 1704099600000 ''weekly'' (Some [5, 3]) = Some 1704272400000"
    by (simp add: calculateNextExecutionTime_def Let_def setDate_getDate mon msPerDay_def)
  have d: "calculateNextExecutionTime 0 1704445200000 ''weekly'' (Some [5, 3]) = Some 1704877200000"
    by (simp add: calculateNextExecutionTime_def Let_def setDate_getDate fri msPerDay_def)
  from weekly_next [of "[5, 3]" 0 1704099600000 "Some [5, 3]"] a c
  have 1: "calculateNextExecutionTime 0 1704099600000 ''weekly'' (Some [5, 3])
     = Some (1704099600000
         + (Min {d \<in> set [5, 3]. getDay 0 1704099600000 < d} - getDay 0 1704099600000)
           * msPerDay)"
    and 2: "TimeWithinDay (LocalTime 0 1704272400000) = TimeWithinDay (LocalTime 0 1704099600000)"
    by blast+
  from weekly_next [of "[5, 3]" 0 1704445200000 "Some [5, 3]"] b
  have 3: "calculateNextExecutionTime 0 1704445200000 ''weekly'' (Some [5, 3])
     = Some (1704445200000 + (7 - getDay 0 1704445200000 + Min (set [5, 3])) * msPerDay)"
    by blast
  from 1 2 3 c d show ?thesis by blast
qed

text \<open>
  C7, as amended. For the pattern \<open>daily\<close> the next time is the last fire time plus
  one day: the next local calendar day at the same local time of day. For the pattern
  \<open>monthly\<close>, when the day of the month of the last fire time exists in the following
  month, the next time lies in the following month (of the next year after December), on
  the same day of the month and at the same local time of day. For every pattern other
  than \<open>daily\<close>, \<open>weekly\<close> and \<open>monthly\<close> the helper returns null, and for a
  schedule that is not recurring the handler computes no next time.
\<close>

theorem daily_monthly_next:
  "calculateNextExecutionTime tza t ''daily'' rd = Some (t + msPerDay)
   \<and> Day (LocalTime tza (t + msPerDay)) = Day (LocalTime tza t) + 1
   \<and> TimeWithinDay (LocalTime tza (t + msPerDay)) = TimeWithinDay (LocalTime tza t)
   \<and> (getDate tza t
         \<le> DaysInMonth (getFullYear tza t + (getMonth tza t + 1) div 12)
             ((getMonth tza t + 1) mod 12) \<longrightarrow>
       (\<exists>t'. calculateNextExecutionTime tza t ''monthly'' rd = Some t'
          \<and> getFullYear tza t' = getFullYear tza t + (getMonth tza t + 1) div 12
          \<and> getMonth tza t' = (getMonth tza t + 1) mod 12
          \<and> getDate tza t' = getDate tza t
          \<and> TimeWithinDay (LocalTime tza t') = TimeWithinDay (LocalTime tza t)))
   \<and> (pattern \<noteq> ''daily'' \<and> pattern \<noteq> ''weekly'' \<and> pattern \<noteq> ''monthly'' \<longrightarrow>
         calculateNextExecutionTime tza t pattern rd = None)
   \<and> (schedule_type s \<noteq> ''recurring'' \<longrightarrow> ud_start_time (updateData e now s) = None)"
proof (intro conjI impI)
  show "calculateNextExecutionTime tza t ''daily'' rd = Some (t + msPerDay)"
    using setDate_getDate [of tza t 1] by (simp add: calculateNextExecutionTime_def)
next
  show "Day (LocalTime tza (t + msPerDay)) = Day (LocalTime tza t) + 1"
    by (simp add: Day_def LocalTime_def msPerDay_def)
next
  show "TimeWithinDay (LocalTime tza (t + msPerDay)) = TimeWithinDay (LocalTime tza t)"
    using local_time_of_day_add_days [of tza t 1] by simp
next
  assume "getDate tza t
         \<le> DaysInMonth (getFullYear tza t + (getMonth tza t + 1) div 12)
             ((getMonth tza t + 1) mod 12)"
  from setMonth_fields [OF this]
  show "\<exists>t'. calculateNextExecutionTime tza t ''monthly'' rd = Some t'
          \<and> getFullYear tza t' = getFullYear tza t + (getMonth tza t + 1) div 12
          \<and> getMonth tza t' = (getMonth tza t + 1) mod 12
          \<and> getDate tza t' = getDate tza t
          \<and> TimeWithinDay (LocalTime tza t') = TimeWithinDay (LocalTime tza t)"
    by (simp add: calculateNextExecutionTime_def)
next
  assume "pattern \<noteq> ''daily'' \<and> pattern \<noteq> ''weekly'' \<and> pattern \<noteq> ''monthly''"
  then show "calculateNextExecutionTime tza t pattern rd = None"
    by (simp add: calculateNextExecutionTime_def)
next
  assume "schedule_type s \<noteq> ''recurring''"
  then show "ud_start_time (updateData e now s) = None"
    by (simp add: updateData_def split: option.splits)
qed

text \<open>
  C7 as stated fails for days that the following month does not have: from
  2024-01-31T09:00Z the pattern \<open>monthly\<close> leads to 2024-03-02T09:00Z, which is
  neither in February nor on the 31st.
\<close>

theorem monthly_overflow:
  "getMonth 0 1706691600000 = 0 \<and> getDate 0 1706691600000 = 31
   \<and> calculateNextExecutionTime 0 1706691600000 ''monthly'' None = Some 1709370000000
   \<and> getMonth 0 1709370000000 = 2 \<and> getDate 0 1709370000000 = 2"
  by code_simp

text \<open>
  From 2024-01-15T09:00Z: \<open>monthly\<close> gives 2024-02-15T09:00Z, \<open>daily\<close> gives
  2024-01-16T09:00Z, the pattern \<open>none\<close> gives null.
\<close>

theorem daily_monthly_next_witness:
  "calculateNextExecutionTime 0 1705309200000 ''monthly'' None = Some 1707987600000
   \<and> getFullYear 0 1707987600000 = 2024 \<and> getMonth 0 1707987600000 = 1
   \<and> getDate 0 1707987600000 = 15
   \<and> calculateNextExecutionTime 0 1705309200000 ''daily'' None = Some 1705395600000
   \<and> calculateNextExecutionTime 0 1705309200000 ''none'' None = None
   \<and> ud_start_time (updateData ex_env ex_now job_once) = None"
proof -
  have le: "getDate 0 1705309200000
         \<le> DaysInMonth (getFullYear 0 1705309200000 + (getMonth 0 1705309200000 + 1) div 12)
             ((getMonth 0 1705309200000 + 1) mod 12)"
    using ex_fields_jan15 by (simp add: DaysInMonth_def month_length_def InLeapYear_def)
  have m: "calculateNextExecutionTime 0 1705309200000 ''monthly'' None = Some 1707987600000"
    by code_simp
  have p: "''none'' \<noteq> ''daily'' \<and> ''none'' \<noteq> ''weekly'' \<and> ''none'' \<noteq> ''monthly''"
    by simp
  have o: "schedule_type job_once \<noteq> ''recurring''"
    by (simp add: job_once_def)
  from daily_monthly_next [of 0 1705309200000 None "''none''" job_once ex_env ex_now] le p o m
  show ?thesis by (auto simp add: msPerDay_def ex_fields_jan15)
qed

subsection \<open>Writing the schedule back\<close>

text \<open>
  C3. Let the write-back of a schedule succeed, and let its recurrence days, if any, be
  weekday indices (0 to 6). Then the row of that schedule in the table is as follows.
  For a schedule that is not recurring, \<open>last_executed_at\<close> is the time of the run; no
  due-scan selects the row, at whatever time and after whatever further runs of the
  handler; and when the ids of the table are distinct, all further runs leave the row as
  it is. For a recurring schedule whose pattern yields a next time, \<open>start_time\<close> is that
  next time, which is strictly later than the previous \<open>start_time\<close>,
  \<open>last_executed_at\<close> is null, and the outcome reports the next time. For a recurring
  schedule without a pattern, or whose pattern yields no next time, the row is as for a
  schedule that is not recurring. The write-back neither adds nor removes rows.
\<close>

theorem finalization:
  assumes ok: "update_error e s = None"
    and wd: "\<forall>days. recurrence_days s = Some days \<longrightarrow> (\<forall>d\<in>set days. 0 \<le> d \<and> d \<le> 6)"
    and r: "r \<in> set (store (snd (execute_schedule e now s w)))"
    and i: "schedule_id r = schedule_id s"
  shows "(schedule_type s \<noteq> ''recurring'' \<longrightarrow>
            last_executed_at r = Some now
            \<and> (\<forall>runs t. r \<notin> set (schedulesToExecute
                  (store (handler_runs runs (snd (execute_schedule e now s w)))) t))
            \<and> (distinct (map schedule_id (store w)) \<longrightarrow>
                 (\<forall>runs. r \<in> set (store (handler_runs runs (snd (execute_schedule e now s w)))))))
       \<and> (schedule_type s = ''recurring'' \<and> recurrence_pattern s = Some p
            \<and> calculateNextExecutionTime (local_tza e) (start_time s) p (recurrence_days s)
                = Some nt \<longrightarrow>
            start_time r = nt \<and> last_executed_at r = None \<and> start_time s < nt
            \<and> nextExecution (fst (execute_schedule e now s w)) = Some nt)
       \<and> (schedule_type s = ''recurring''
            \<and> (recurrence_pattern s = None
                 \<or> recurrence_pattern s = Some p
                    \<and> calculateNextExecutionTime (local_tza e) (start_time s) p
                          (recurrence_days s) = None) \<longrightarrow>
            last_executed_at r = Some now
            \<and> (\<forall>runs t. r \<notin> set (schedulesToExecute
                  (store (handler_runs runs (snd (execute_schedule e now s w)))) t))
            \<and> (distinct (map schedule_id (store w)) \<longrightarrow>
                 (\<forall>runs. r \<in> set (store (handler_runs runs (snd (execute_schedule e now s w)))))))
       \<and> map schedule_id (store (snd (execute_schedule e now s w))) = map schedule_id (store w)"
proof -
  let ?u = "updateData e now s"
  let ?w = "snd (execute_schedule e now s w)"
  have st: "store ?w = update_schedules ?u (schedule_id s) (store w)"
    by (rule execute_schedule_store [OF ok])
  obtain r0 where r0: "r = apply_update ?u r0"
    using updated_row [of r ?u "schedule_id s" "store w"] r i st by auto
  have four: "map schedule_id (store ?w) = map schedule_id (store w)"
    by (simp add: st update_schedules_ids)
  have terminal: "last_executed_at r = Some now
      \<and> (\<forall>runs t. r \<notin> set (schedulesToExecute (store (handler_runs runs ?w)) t))
      \<and> (distinct (map schedule_id (store w)) \<longrightarrow>
           (\<forall>runs. r \<in> set (store (handler_runs runs ?w))))"
    if "ud_last_executed_at ?u = Some now"
  proof -
    have l: "last_executed_at r = Some now" using that r0 by (simp add: apply_update_def)
    then have ne: "last_executed_at r \<noteq> None" by simp
    have never: "\<forall>runs t. r \<notin> set (schedulesToExecute (store (handler_runs runs ?w)) t)"
      using executed_never_selected [OF ne] by simp
    have stays: "distinct (map schedule_id (store w)) \<longrightarrow>
           (\<forall>runs. r \<in> set (store (handler_runs runs ?w)))"
    proof (intro impI allI)
      fix runs
      assume "distinct (map schedule_id (store w))"
      then have "distinct (map schedule_id (store ?w))" by (simp add: four)
      then show "r \<in> set (store (handler_runs runs ?w))"
        using r ne by (rule handler_runs_keeps)
    qed
    from l never stays show ?thesis by blast
  qed
  have one: "schedule_type s \<noteq> ''recurring'' \<longrightarrow>
            last_executed_at r = Some now
            \<and> (\<forall>runs t. r \<notin> set (schedulesToExecute (store (handler_runs runs ?w)) t))
            \<and> (distinct (map schedule_id (store w)) \<longrightarrow>
                 (\<forall>runs. r \<in> set (store (handler_runs runs ?w))))"
  proof
    assume "schedule_type s \<noteq> ''recurring''"
    then have "ud_last_executed_at ?u = Some now"
      by (simp add: updateData_def split: option.splits)
    then show "last_executed_at r = Some now
            \<and> (\<forall>runs t. r \<notin> set (schedulesToExecute (store (handler_runs runs ?w)) t))
            \<and> (distinct (map schedule_id (store w)) \<longrightarrow>
                 (\<forall>runs. r \<in> set (store (handler_runs runs ?w))))"
      by (rule terminal)
  qed
  have two: "schedule_type s = ''recurring'' \<and> recurrence_pattern s = Some p
            \<and> calculateNextExecutionTime (local_tza e) (start_time s) p (recurrence_days s)
                = Some nt \<longrightarrow>
            start_time r = nt \<and> last_executed_at r = None \<and> start_time s < nt
            \<and> nextExecution (fst (execute_schedule e now s w)) = Some nt"
  proof
    assume a: "schedule_type s = ''recurring'' \<and> recurrence_pattern s = Some p
            \<and> calculateNextExecutionTime (local_tza e) (start_time s) p (recurrence_days s)
                = Some nt"
    then have "p \<noteq> []" by (auto simp add: calculateNextExecutionTime_def)
    then have u: "?u = \<lparr>ud_last_executed_at = None, ud_start_time = Some nt\<rparr>"
      using a by (simp add: updateData_def)
    have "start_time s < nt"
      using next_time_later [of "local_tza e" "start_time s" p "recurrence_days s" nt] a wd
      by blast
    then show "start_time r = nt \<and> last_executed_at r = None \<and> start_time s < nt
            \<and> nextExecution (fst (execute_schedule e now s w)) = Some nt"
      using r0 u execute_schedule_next [OF ok, of now w] by (simp add: apply_update_def)
  qed
  have three: "schedule_type s = ''recurring''
            \<and> (recurrence_pattern s = None
                 \<or> recurrence_pattern s = Some p
                    \<and> calculateNextExecutionTime (local_tza e) (start_time s) p
                          (recurrence_days s) = None) \<longrightarrow>
            last_executed_at r = Some now
            \<and> (\<forall>runs t. r \<notin> set (schedulesToExecute (store (handler_runs runs ?w)) t))
            \<and> (distinct (map schedule_id (store w)) \<longrightarrow>
                 (\<forall>runs. r \<in> set (store (handler_runs runs ?w))))"
  proof
    assume "schedule_type s = ''recurring''
            \<and> (recurrence_pattern s = None
                 \<or> recurrence_pattern s = Some p
                    \<and> calculateNextExecutionTime (local_tza e) (start_time s) p
                          (recurrence_days s) = None)"
    then have "ud_last_executed_at ?u = Some now"
      by (auto simp add: updateData_def)
    then show "last_executed_at r = Some now
            \<and> (\<forall>runs t. r \<notin> set (schedulesToExecute (store (handler_runs runs ?w)) t))
            \<and> (distinct (map schedule_id (store w)) \<longrightarrow>
                 (\<forall>runs. r \<in> set (store (handler_runs runs ?w))))"
      by (rule terminal)
  qed
  from one two three four show ?thesis by blast
qed

text \<open>
  The daily schedule of the sample data, started at 09:05 on 2024-01-01, is moved to
  09:05 on 2024-01-02 and is eligible again. The schedule that runs once is marked as
  executed; the run of the next minute neither selects nor changes its row.
\<close>

theorem finalization_witness:
  "job_daily_next \<in> set (store (snd (execute_schedule ex_env ex_now job_daily ex_world)))
   \<and> start_time job_daily_next = 1704186300000
   \<and> last_executed_at job_daily_next = None
   \<and> start_time job_daily < 1704186300000
   \<and> nextExecution (fst (execute_schedule ex_env ex_now job_daily ex_world)) = Some 1704186300000
   \<and> job_once_done \<in> set (store (snd (execute_schedule ex_env ex_now job_once ex_world)))
   \<and> last_executed_at job_once_done = Some ex_now
   \<and> job_once_done \<notin> set (schedulesToExecute
        (store (handler_runs [(ex_env, cron_request, ex_now + 60000)]
                  (snd (execute_schedule ex_env ex_now job_once ex_world))))
        (ex_now + 60000))
   \<and> job_once_done \<in> set (store (handler_runs [(ex_env, cron_request, ex_now + 60000)]
                  (snd (execute_schedule ex_env ex_now job_once ex_world))))"
proof -
  have ok: "update_error ex_env job_daily = None" by (simp add: ex_env_def)
  have wd: "\<forall>days. recurrence_days job_daily = Some days \<longrightarrow> (\<forall>d\<in>set days. 0 \<le> d \<and> d \<le> 6)"
    by (simp add: job_daily_def)
  have r: "job_daily_next \<in> set (store (snd (execute_schedule ex_env ex_now job_daily ex_world)))"
    by (simp add: ex_store_after_daily)
  have i: "schedule_id job_daily_next = schedule_id job_daily"
    by (simp add: job_daily_next_def)
  have p: "schedule_type job_daily = ''recurring'' \<and> recurrence_pattern job_daily = Some ''daily''
     \<and> calculateNextExecutionTime (local_tza ex_env) (start_time job_daily) ''daily''
          (recurrence_days job_daily) = Some 1704186300000"
    using ex_daily_next by (simp add: job_daily_def ex_env_def)
  note a = finalization [OF ok wd r i, of "''daily''" 1704186300000]
  have 1: "start_time job_daily_next = 1704186300000 \<and> last_executed_at job_daily_next = None
      \<and> start_time job_daily < 1704186300000
      \<and> nextExecution (fst (execute_schedule ex_env ex_now job_daily ex_world))
          = Some 1704186300000"
    by (rule a [THEN conjunct2, THEN conjunct1, THEN mp, OF p])
  have ok': "update_error ex_env job_once = None" by (simp add: ex_env_def)
  have wd': "\<forall>days. recurrence_days job_once = Some days \<longrightarrow> (\<forall>d\<in>set days. 0 \<le> d \<and> d \<le> 6)"
    by (simp add: job_once_def)
  have r': "job_once_done \<in> set (store (snd (execute_schedule ex_env ex_now job_once ex_world)))"
    by (simp add: ex_store_after_once)
  have i': "schedule_id job_once_done = schedule_id job_once"
    by (simp add: job_once_done_def)
  have t: "schedule_type job_once \<noteq> ''recurring''" by (simp add: job_once_def)
  have d: "distinct (map schedule_id (store ex_world))"
    by (simp add: ex_world_def job_once_def job_daily_def)
  note b = finalization [OF ok' wd' r' i', of "''daily''" 0, THEN conjunct1, THEN mp, OF t]
  have 2: "last_executed_at job_once_done = Some ex_now"
    by (rule b [THEN conjunct1])
  have 3: "job_once_done \<notin> set (schedulesToExecute
        (store (handler_runs [(ex_env, cron_request, ex_now + 60000)]
                  (snd (execute_schedule ex_env ex_now job_once ex_world))))
        (ex_now + 60000))"
    by (rule b [THEN conjunct2, THEN conjunct1, THEN spec, THEN spec])
  have 4: "job_once_done \<in> set (store (handler_runs [(ex_env, cron_request, ex_now + 60000)]
                  (snd (execute_schedule ex_env ex_now job_once ex_world))))"
    by (rule b [THEN conjunct2, THEN conjunct2, THEN mp, OF d, THEN spec])
  from r 1 r' 2 3 4 show ?thesis by blast
qed

text \<open>
  C4, as amended. When the write-back of a schedule fails, its outcome is a failure
  carrying the error of the update, the outcomes of the other selected schedules are
  produced as usual (one per schedule, failed exactly where the update failed), and the
  table is left as it was. Nothing was written before, so \<open>last_executed_at\<close> of the
  schedule is still null: a later due-scan whose window contains its \<open>start_time\<close>
  selects the schedule again.
\<close>

theorem failed_commit:
  assumes "update_error e s = Some m"
  shows "\<not> success (fst (execute_schedule e now s w))
       \<and> error (fst (execute_schedule e now s w)) = Some (''Failed to update schedule: '' @ m)
       \<and> store (snd (execute_schedule e now s w)) = store w
       \<and> (s \<in> set (schedulesToExecute (store w) now) \<and> now \<le> t
            \<and> t - 15 * 60 * 1000 < start_time s \<longrightarrow>
          s \<in> set (schedulesToExecute (store (snd (execute_schedule e now s w))) t))
       \<and> (s \<in> set sel \<longrightarrow>
            length (fst (execute_all e now sel w0)) = length sel
            \<and> map success (fst (execute_all e now sel w0))
                = map (\<lambda>s. update_error e s = None) sel
            \<and> False \<in> set (map success (fst (execute_all e now sel w0))))"
proof -
  note f = execute_schedule_failed [OF assms, of now w]
  have refire: "s \<in> set (schedulesToExecute (store w) now) \<and> now \<le> t
            \<and> t - 15 * 60 * 1000 < start_time s \<longrightarrow>
          s \<in> set (schedulesToExecute (store (snd (execute_schedule e now s w))) t)"
    using f by (auto simp add: set_schedulesToExecute due_def)
  have run: "s \<in> set sel \<longrightarrow>
            length (fst (execute_all e now sel w0)) = length sel
            \<and> map success (fst (execute_all e now sel w0))
                = map (\<lambda>s. update_error e s = None) sel
            \<and> False \<in> set (map success (fst (execute_all e now sel w0)))"
  proof
    assume s: "s \<in> set sel"
    have len: "length (fst (execute_all e now sel w0)) = length sel"
      using execute_all_ids [of e now sel w0] by (metis length_map)
    have "False \<in> set (map (\<lambda>s. update_error e s = None) sel)"
      using s assms by force
    then show "length (fst (execute_all e now sel w0)) = length sel
            \<and> map success (fst (execute_all e now sel w0))
                = map (\<lambda>s. update_error e s = None) sel
            \<and> False \<in> set (map success (fst (execute_all e now sel w0)))"
      using len by (simp add: execute_all_success)
  qed
  from f refire run show ?thesis by blast
qed

text \<open>
  C4 as stated fails: after a failed write-back the schedule is not left claimed. In
  the sample data the schedule that runs once is pushed to both devices, its update
  fails, its \<open>last_executed_at\<close> stays null, and the scan one minute later selects it
  again.
\<close>

theorem failed_commit_refires:
  "\<not> success (fst (execute_schedule ex_env_update_fails ex_now job_once ex_world))
   \<and> store (snd (execute_schedule ex_env_update_fails ex_now job_once ex_world)) = store ex_world
   \<and> job_once \<in> set (store ex_world)
   \<and> last_executed_at job_once = None
   \<and> pushed (snd (execute_schedule ex_env_update_fails ex_now job_once ex_world))
       = [(7, 1), (7, 2)]
   \<and> job_once \<in> set (schedulesToExecute
        (store (snd (execute_schedule ex_env_update_fails ex_now job_once ex_world)))
        (ex_now + 60000))"
proof -
  note f = execute_schedule_failed [of ex_env_update_fails job_once "''connection reset''" ex_now ex_world, OF ex_fail_update]
  have p: "pushed (snd (execute_schedule ex_env_update_fails ex_now job_once ex_world))
       = [(7, 1), (7, 2)]"
    using execute_schedule_pushed [OF ex_fail_targets_once, of ex_now ex_world]
    by (simp add: ex_devices_def job_once_def ex_world_def)
  have m: "job_once \<in> set (store ex_world)" by (simp add: ex_world_def)
  have l: "last_executed_at job_once = None" by (simp add: job_once_def)
  have "job_once \<in> set (schedulesToExecute (store ex_world) (ex_now + 60000))"
    by (simp add: set_schedulesToExecute due_def ex_world_def ex_now_def job_once_def)
  with f p m l show ?thesis by simp
qed

theorem failed_commit_witness:
  "\<not> success (fst (execute_schedule ex_env_update_fails ex_now job_once ex_world))
   \<and> error (fst (execute_schedule ex_env_update_fails ex_now job_once ex_world))
       = Some ''Failed to update schedule: connection reset''
   \<and> store (snd (execute_schedule ex_env_update_fails ex_now job_once ex_world)) = store ex_world
   \<and> job_once \<in> set (schedulesToExecute
        (store (snd (execute_schedule ex_env_update_fails ex_now job_once ex_world)))
        (ex_now + 60000))
   \<and> map success (fst (execute_all ex_env_update_fails ex_now [job_once, job_daily] ex_world))
       = [False, False]"
proof -
  note inst = failed_commit [of ex_env_update_fails job_once "''connection reset''" ex_now
      ex_world "ex_now + 60000" "[job_once, job_daily]" ex_world, OF ex_fail_update]
  have a: "job_once \<in> set (schedulesToExecute (store ex_world) ex_now) \<and> ex_now \<le> ex_now + 60000
            \<and> ex_now + 60000 - 15 * 60 * 1000 < start_time job_once"
    by (simp add: ex_selected) (simp add: ex_now_def job_once_def)
  have b: "job_once \<in> set [job_once, job_daily]" by simp
  have 1: "\<not> success (fst (execute_schedule ex_env_update_fails ex_now job_once ex_world))"
    by (rule inst [THEN conjunct1])
  have 2: "error (fst (execute_schedule ex_env_update_fails ex_now job_once ex_world))
       = Some (''Failed to update schedule: '' @ ''connection reset'')"
    by (rule inst [THEN conjunct2, THEN conjunct1])
  have 3: "store (snd (execute_schedule ex_env_update_fails ex_now job_once ex_world))
       = store ex_world"
    by (rule inst [THEN conjunct2, THEN conjunct2, THEN conjunct1])
  have 4: "job_once \<in> set (schedulesToExecute
        (store (snd (execute_schedule ex_env_update_fails ex_now job_once ex_world)))
        (ex_now + 60000))"
    by (rule inst [THEN conjunct2, THEN conjunct2, THEN conjunct2, THEN conjunct1, THEN mp,
          OF a])
  have 5: "map success (fst (execute_all ex_env_update_fails ex_now [job_once, job_daily] ex_world))
       = map (\<lambda>s. update_error ex_env_update_fails s = None) [job_once, job_daily]"
    by (rule inst [THEN conjunct2, THEN conjunct2, THEN conjunct2, THEN conjunct2, THEN mp,
          OF b, THEN conjunct2, THEN conjunct1])
  have 6: "map (\<lambda>s. update_error ex_env_update_fails s = None) [job_once, job_daily]
       = [False, False]"
    by (simp add: ex_fail_update)
  from 1 2 3 4 show ?thesis unfolding 5 6 by simp
qed

subsection \<open>Resolving the devices\<close>

text \<open>
  C8. Resolving the target devices of a schedule never fails. A filter that cannot be
  parsed, any error raised while the filter is applied, and a failure of the device
  directory all give the empty list of devices. A schedule whose filter cannot be parsed
  and whose write-back succeeds ends with \<open>success = True\<close> and a device count of 0.
  Without a filter the devices are the whole directory.
\<close>

theorem device_resolution:
  "(\<exists>devices. targetDevices e s = Inr devices)
   \<and> (device_filter s = Some text \<and> text \<noteq> [] \<and> json_parse e text = None \<longrightarrow>
        targetDevices e s = Inr [])
   \<and> (device_filter s = Some text \<and> text \<noteq> [] \<and> json_parse e text = Some filt
        \<and> fetchFilteredDevices (toLowerCase e) filt (devices_reply e s) = Inl err \<longrightarrow>
        targetDevices e s = Inr [])
   \<and> (devices_reply e s = DirectoryFailure \<longrightarrow> targetDevices e s = Inr [])
   \<and> (device_filter s = Some text \<and> text \<noteq> [] \<and> json_parse e text = None
        \<and> update_error e s = None \<longrightarrow>
        success (fst (execute_schedule e now s w))
        \<and> devicesCount (fst (execute_schedule e now s w)) = Some 0)
   \<and> (\<not> truthy_string (device_filter s) \<and> devices_reply e s = DirectoryBody (Some devices) \<longrightarrow>
        targetDevices e s = Inr devices)"
proof -
  have p1: "\<exists>devices. targetDevices e s = Inr devices" by (rule targetDevices_total)
  have p2: "device_filter s = Some text \<and> text \<noteq> [] \<and> json_parse e text = None \<longrightarrow>
        targetDevices e s = Inr []"
    by (simp add: targetDevices_def truthy_string_def try_catch_def)
  have p3: "device_filter s = Some text \<and> text \<noteq> [] \<and> json_parse e text = Some filt
        \<and> fetchFilteredDevices (toLowerCase e) filt (devices_reply e s) = Inl err \<longrightarrow>
        targetDevices e s = Inr []"
    by (simp add: targetDevices_def truthy_string_def try_catch_def)
  have p4: "devices_reply e s = DirectoryFailure \<longrightarrow> targetDevices e s = Inr []"
  proof
    assume f: "devices_reply e s = DirectoryFailure"
    have empty: "fetchFilteredDevices (toLowerCase e) filt DirectoryFailure = Inr []
        \<or> (\<exists>err. fetchFilteredDevices (toLowerCase e) filt DirectoryFailure = Inl err)" for filt
      by (auto simp add: fetchFilteredDevices_def fetchAllDevices_def split: sum.splits)
    show "targetDevices e s = Inr []"
    proof (cases "truthy_string (device_filter s)")
      case False
      then show ?thesis using f by (simp add: targetDevices_def fetchAllDevices_def)
    next
      case True
      then obtain ftext where t: "device_filter s = Some ftext"
        by (cases "device_filter s") (simp_all add: truthy_string_def)
      show ?thesis
      proof (cases "json_parse e ftext")
        case None
        then show ?thesis using True t by (simp add: targetDevices_def try_catch_def)
      next
        case (Some filt)
        then show ?thesis
          using True t f empty [of filt] by (auto simp add: targetDevices_def try_catch_def)
      qed
    qed
  qed
  have p5: "device_filter s = Some text \<and> text \<noteq> [] \<and> json_parse e text = None
        \<and> update_error e s = None \<longrightarrow>
        success (fst (execute_schedule e now s w))
        \<and> devicesCount (fst (execute_schedule e now s w)) = Some 0"
  proof
    assume a: "device_filter s = Some text \<and> text \<noteq> [] \<and> json_parse e text = None
        \<and> update_error e s = None"
    then have t: "targetDevices e s = Inr []"
      by (simp add: targetDevices_def truthy_string_def try_catch_def)
    show "success (fst (execute_schedule e now s w))
        \<and> devicesCount (fst (execute_schedule e now s w)) = Some 0"
      using execute_schedule_success [of e s now w] execute_schedule_count [OF t, of now w] a
      by simp
  qed
  have p6: "\<not> truthy_string (device_filter s)
        \<and> devices_reply e s = DirectoryBody (Some devices) \<longrightarrow>
        targetDevices e s = Inr devices"
    by (simp add: targetDevices_def fetchAllDevices_def)
  from p1 p2 p3 p4 p5 p6 show ?thesis by blast
qed

text \<open>
  In the sample data: the daily schedule, whose filter is no JSON, succeeds with no
  devices; the schedule without a filter gets the whole directory, and no device when the
  directory fails; the filter \<open>null\<close> gives no device.
\<close>

theorem device_resolution_witness:
  "targetDevices ex_env job_daily = Inr []
   \<and> success (fst (execute_schedule ex_env ex_now job_daily ex_world))
   \<and> devicesCount (fst (execute_schedule ex_env ex_now job_daily ex_world)) = Some 0
   \<and> targetDevices ex_env job_once = Inr ex_devices
   \<and> targetDevices (ex_env\<lparr>devices_reply := (\<lambda>schedule. DirectoryFailure)\<rparr>) job_once = Inr []
   \<and> targetDevices ex_env job_null_filter = Inr []"
proof -
  have a: "device_filter job_daily = Some ''{oops'' \<and> ''{oops'' \<noteq> []
      \<and> json_parse ex_env ''{oops'' = None \<and> update_error ex_env job_daily = None"
    by (simp add: job_daily_def ex_env_def ex_parse_def)
  have b: "\<not> truthy_string (device_filter job_once)
      \<and> devices_reply ex_env job_once = DirectoryBody (Some ex_devices)"
    by (simp add: job_once_def ex_env_def truthy_string_def)
  have c: "devices_reply (ex_env\<lparr>devices_reply := (\<lambda>schedule. DirectoryFailure)\<rparr>) job_once
      = DirectoryFailure"
    by simp
  have d: "device_filter job_null_filter = Some ''null'' \<and> ''null'' \<noteq> []
      \<and> json_parse ex_env ''null'' = Some JNull
      \<and> fetchFilteredDevices (toLowerCase ex_env) JNull (devices_reply ex_env job_null_filter)
          = Inl TypeError"
    using ex_null_filter by (simp add: job_null_filter_def ex_env_def ex_parse_def)
  from device_resolution [of ex_env job_daily "''{oops''" JNull TypeError ex_now ex_world ex_devices] a
  have 1: "targetDevices ex_env job_daily = Inr []"
    and 2: "success (fst (execute_schedule ex_env ex_now job_daily ex_world))
        \<and> devicesCount (fst (execute_schedule ex_env ex_now job_daily ex_world)) = Some 0"
    by blast+
  from device_resolution [of ex_env job_once "''{oops''" JNull TypeError ex_now ex_world ex_devices] b
  have 3: "targetDevices ex_env job_once = Inr ex_devices" by blast
  from device_resolution [of "ex_env\<lparr>devices_reply := (\<lambda>schedule. DirectoryFailure)\<rparr>" job_once
      "''{oops''" JNull TypeError ex_now ex_world ex_devices] c
  have 4: "targetDevices (ex_env\<lparr>devices_reply := (\<lambda>schedule. DirectoryFailure)\<rparr>) job_once = Inr []"
    by blast
  from device_resolution [of ex_env job_null_filter "''null''" JNull TypeError ex_now ex_world
      ex_devices] d
  have 5: "targetDevices ex_env job_null_filter = Inr []" by blast
  from 1 2 3 4 5 show ?thesis by simp
qed

subsection \<open>Overlapping runs\<close>

text \<open>
  C1, as amended. The handler has no claim step and no compare-and-set. The only guard
  is the filter of the due-scan: every selected schedule had \<open>last_executed_at\<close> null in
  the table that was scanned, and a row whose \<open>last_executed_at\<close> is set is never
  selected. A run then executes every schedule it selected without looking at the table
  again, an outcome is a success exactly when the update reports no error, and the update
  overwrites \<open>last_executed_at\<close> of the rows with the schedule's id whatever they hold at
  that moment. So a schedule is kept from a second execution only in runs that scan after
  an earlier run has written it back.
\<close>

theorem no_claim_step:
  "(\<forall>s\<in>set (schedulesToExecute table now). last_executed_at s = None)
   \<and> (last_executed_at r \<noteq> None \<longrightarrow> r \<notin> set (schedulesToExecute table now))
   \<and> map scheduleId (fst (execute_all e now sel w)) = map schedule_id sel
   \<and> map success (fst (execute_all e now sel w)) = map (\<lambda>s. update_error e s = None) sel
   \<and> (update_error e s = None \<longrightarrow>
        (\<forall>row\<in>set (store (snd (execute_schedule e now s w))).
           schedule_id row = schedule_id s \<longrightarrow>
           last_executed_at row = ud_last_executed_at (updateData e now s)))"
proof (intro conjI impI ballI)
  fix s assume "s \<in> set (schedulesToExecute table now)"
  then show "last_executed_at s = None" by (simp add: set_schedulesToExecute due_def)
next
  assume "last_executed_at r \<noteq> None"
  then show "r \<notin> set (schedulesToExecute table now)" by (rule executed_never_selected)
next
  show "map scheduleId (fst (execute_all e now sel w)) = map schedule_id sel"
    by (rule execute_all_ids)
next
  show "map success (fst (execute_all e now sel w)) = map (\<lambda>s. update_error e s = None) sel"
    by (rule execute_all_success)
next
  fix row
  assume ok: "update_error e s = None"
    and row: "row \<in> set (store (snd (execute_schedule e now s w)))"
    and i: "schedule_id row = schedule_id s"
  obtain r0 where "row = apply_update (updateData e now s) r0"
    using updated_row [of row "updateData e now s" "schedule_id s" "store w"] row i
      execute_schedule_store [OF ok, of now w] by auto
  then show "last_executed_at row = ud_last_executed_at (updateData e now s)"
    by (simp add: apply_update_def)
qed

text \<open>
  C1 as stated fails: with two overlapping runs over the sample table, both select both
  schedules, both report success for both, the second run's update goes through although
  the row already holds the first run's \<open>last_executed_at\<close>, and profile 7 is pushed to
  each device twice.
\<close>

theorem overlapping_runs_execute_twice:
  "schedulesToExecute (store ex_world) ex_now = [job_once, job_daily]
   \<and> schedulesToExecute (store ex_world) (ex_now + 1000) = [job_once, job_daily]
   \<and> map success (fst run_a) = [True, True]
   \<and> job_once_done \<in> set (store (snd run_a))
   \<and> last_executed_at job_once_done = Some ex_now
   \<and> map scheduleId (fst run_b) = [schedule_id job_once, schedule_id job_daily]
   \<and> map success (fst run_b) = [True, True]
   \<and> pushed (snd run_b) = [(7, 1), (7, 2), (7, 1), (7, 2)]"
proof -
  have u: "update_error ex_env job_once = None" "update_error ex_env job_daily = None"
    by (simp_all add: ex_env_def)
  have sa: "map success (fst run_a) = [True, True]"
    unfolding run_a_def by (simp only: execute_all_success ex_selected) (simp add: u)
  have sb: "map success (fst run_b) = [True, True]"
    unfolding run_b_def by (simp only: execute_all_success ex_selected_later) (simp add: u)
  have ib: "map scheduleId (fst run_b) = [schedule_id job_once, schedule_id job_daily]"
    unfolding run_b_def by (simp only: execute_all_ids ex_selected_later) simp
  have a: "snd run_a
      = snd (execute_schedule ex_env ex_now job_daily
               (snd (execute_schedule ex_env ex_now job_once ex_world)))"
    unfolding run_a_def ex_selected execute_all_two by (simp add: Let_def)
  have b: "snd run_b
      = snd (execute_schedule ex_env (ex_now + 1000) job_daily
               (snd (execute_schedule ex_env (ex_now + 1000) job_once (snd run_a))))"
    unfolding run_b_def ex_selected_later execute_all_two by (simp add: Let_def)
  note s1 = ex_store_after_once
  have id: "schedule_id job_daily = 2" "schedule_id job_once_done = 1"
    by (simp_all add: job_daily_def job_once_done_def job_once_def)
  have "store (snd run_a)
      = update_schedules (updateData ex_env ex_now job_daily) (schedule_id job_daily)
          [job_daily, job_once_done]"
    unfolding a using execute_schedule_store [OF u(2)] s1 by simp
  then have st: "job_once_done \<in> set (store (snd run_a))"
    by (simp add: update_schedules_def id)
  have pa: "pushed (snd run_a) = [(7, 1), (7, 2)]"
    unfolding a by (simp add: ex_push_daily ex_push_once ex_world_def)
  have pb: "pushed (snd run_b) = [(7, 1), (7, 2), (7, 1), (7, 2)]"
    unfolding b by (simp add: ex_push_daily ex_push_once pa)
  have l: "last_executed_at job_once_done = Some ex_now"
    by (simp add: job_once_done_def)
  from ex_selected ex_selected_later sa st l ib sb pb show ?thesis by blast
qed

theorem no_claim_step_witness:
  "last_executed_at job_once = None
   \<and> job_once_done \<notin> set (schedulesToExecute [job_daily, job_once_done] (ex_now + 1000))
   \<and> map success (fst (execute_all ex_env ex_now [job_once] ex_world)) = [True]
   \<and> last_executed_at job_once_done = ud_last_executed_at (updateData ex_env ex_now job_once)"
proof -
  have ok: "update_error ex_env job_once = None" by (simp add: ex_env_def)
  have sel: "job_once \<in> set (schedulesToExecute (store ex_world) ex_now)"
    by (simp add: ex_selected)
  have d: "last_executed_at job_once_done \<noteq> None" by (simp add: job_once_done_def)
  note s1 = ex_store_after_once
  have row: "job_once_done \<in> set (store (snd (execute_schedule ex_env ex_now job_once ex_world)))"
    by (simp add: s1)
  have i: "schedule_id job_once_done = schedule_id job_once" by (simp add: job_once_done_def)
  note a = no_claim_step [of "store ex_world" ex_now job_once_done ex_env "[job_once]" ex_world
         job_once]
  note b = no_claim_step [of "[job_daily, job_once_done]" "ex_now + 1000" job_once_done ex_env
         "[job_once]" ex_world job_once]
  have 1: "last_executed_at job_once = None"
    by (rule a [THEN conjunct1, THEN bspec, OF sel])
  have 2: "job_once_done \<notin> set (schedulesToExecute [job_daily, job_once_done] (ex_now + 1000))"
    by (rule b [THEN conjunct2, THEN conjunct1, THEN mp, OF d])
  have 3: "map success (fst (execute_all ex_env ex_now [job_once] ex_world))
              = map (\<lambda>s. update_error ex_env s = None) [job_once]"
    by (rule a [THEN conjunct2, THEN conjunct2, THEN conjunct2, THEN conjunct1])
  have 4: "last_executed_at job_once_done = ud_last_executed_at (updateData ex_env ex_now job_once)"
    by (rule a [THEN conjunct2, THEN conjunct2, THEN conjunct2, THEN conjunct2, THEN mp,
          OF ok, THEN bspec, OF row, THEN mp, OF i])
  from 1 2 3 4 ok show ?thesis by simp
qed

end
